theory Spec2Isabelle
  imports Main
begin

section \<open>Data model of the AS3 declaration synthesis\<close>

text \<open>
  The Go package \<^verbatim>\<open>pkg/agent/as3\<close> builds one declaration tree per pass. The file
  \<^verbatim>\<open>as3Resource.go\<close> holds the pipeline driver, the TLS attachment stage and the WAF
  injection stage. The types and constants it uses are declared in other files of the
  package and of \<^verbatim>\<open>pkg/resource\<close>, which are outside src; each record below keeps
  the fields that \<^verbatim>\<open>as3Resource.go\<close> reads or writes, under the names it uses.
\<close>

subsection \<open>Enumerations compared in switch statements\<close>

text \<open>
  Modelled from the spec: the constants \<^verbatim>\<open>CustomProfileClient\<close> and
  \<^verbatim>\<open>CustomProfileServer\<close> are declared outside src; the spec (section 3) names the two
  contexts, client-side termination and server-side re-encryption. The code compares
  \<^verbatim>\<open>profile.Context\<close> and \<^verbatim>\<open>key.Context\<close> with these two constants only, and a
  Go switch over constants needs them distinct. Every other value of the field is
  \<open>CustomProfileOther\<close>.
\<close>

datatype ProfileContext = CustomProfileClient | CustomProfileServer | CustomProfileOther string

text \<open>
  Modelled from the spec: the constants \<^verbatim>\<open>ResourceTypeRoute\<close> and
  \<^verbatim>\<open>ResourceTypeIngress\<close> are declared outside src; the spec (section 4.1) names the
  two resource kinds, Route-style and Ingress-style. The default branch of the switch
  on \<^verbatim>\<open>cfg.MetaData.ResourceType\<close> takes every other value.
\<close>

datatype ResourceType = ResourceTypeRoute | ResourceTypeIngress | ResourceTypeOther string

text \<open>
  Modelled from the spec: the constants \<^verbatim>\<open>HTTP\<close>, \<^verbatim>\<open>HTTPS\<close> and \<^verbatim>\<open>HTTPANDS\<close> of
  \<^verbatim>\<open>pkg/resource\<close> are declared outside src; the spec (section 3) names the three
  exposures HTTP, HTTPS and HTTP-and-HTTPS. The switch on \<^verbatim>\<open>res.Virtual\<close> has these
  three cases and no default branch; every other value of the field is
  \<open>VirtualOther\<close>.
\<close>

datatype VirtualType = HTTP | HTTPS | HTTPANDS | VirtualOther string

subsection \<open>Service objects and TLS source data\<close>

record as3ResourcePointer =
  BigIP :: string

text \<open>
  Modelled from the spec: the struct \<^verbatim>\<open>as3Service\<close> is declared outside src. The spec
  (section 3) gives a Service object a protocol (HTTP or HTTPS), one optional ClientTLS
  pointer and an ordered list of ServerTLS pointers. A nil slice is the empty list, a
  nil pointer is \<open>None\<close>.
\<close>

datatype as3Protocol = Service_HTTP | Service_HTTPS

record as3Service =
  Protocol :: as3Protocol
  ServerTLS :: "as3ResourcePointer list"
  ClientTLS :: "as3ResourcePointer option"

text \<open>
  The entries of \<^verbatim>\<open>virtual.Profiles\<close> and the keys of \<^verbatim>\<open>metadata.RouteProfs\<close>. Both
  structs have a field \<^verbatim>\<open>Name\<close> and a field \<^verbatim>\<open>Context\<close>; the fields of the key carry the
  prefix \<open>Key\<close> here.
\<close>

record ProfileRef =
  Partition :: string
  Name :: string
  Context :: ProfileContext

record Virtual =
  Profiles :: "ProfileRef list"

record RouteKey =
  KeyName :: string
  KeyNamespace :: string
  KeyContext :: ProfileContext

text \<open>
  \<^verbatim>\<open>RouteProfs\<close> is a Go map from \<^verbatim>\<open>RouteKey\<close> to a reference string. The code only
  ranges over it, and Go leaves the order of a range over a map unspecified. The model
  holds the entries as an association list with distinct keys, in the order in which
  one particular range statement yields them.
\<close>

record MetaData =
  ResourceType :: ResourceType
  RouteProfs :: "(RouteKey \<times> string) list"

record ResourceConfig =
  MetaData :: MetaData
  Virtual :: Virtual

subsection \<open>Policies, rules and actions\<close>

text \<open>
  \<^verbatim>\<open>Enabled\<close> is a \<^verbatim>\<open>*bool\<close>: \<open>None\<close> is the nil pointer. Fields that a struct literal
  leaves out have Go's zero value (the empty string, nil). The field \<^verbatim>\<open>Name\<close> of
  \<^verbatim>\<open>as3Rule\<close> is \<open>RuleName\<close> here.
\<close>

record as3Action =
  Type :: string
  Event :: string
  Enabled :: "bool option"

record as3Rule =
  RuleName :: string
  Actions :: "as3Action list"

text \<open>
  A policy holds a slice of \<^verbatim>\<open>*as3Rule\<close>. Rules are mutated through these pointers
  (\<^verbatim>\<open>rule.Actions = append(rule.Actions, ...)\<close>), and one rule object can sit in
  several policies, so a rule pointer is an address into a store of rules. Every
  address denotes a rule object: the code dereferences each element of \<^verbatim>\<open>ep.Rules\<close>
  without a nil check. Actions are never mutated after they are built, so they are kept
  as values.
\<close>

type_synonym ruleRef = nat

type_synonym ruleStore = "ruleRef \<Rightarrow> as3Rule"

record as3EndpointPolicy =
  Rules :: "ruleRef list"

text \<open>
  The shared application maps a name to an object of any AS3 class
  (\<^verbatim>\<open>map[string]interface{}\<close>); the type assertions of the code tell a Service and
  an Endpoint Policy from everything else. The map holds pointers to Service and
  policy objects; here it holds the objects themselves, so two names hold two objects,
  and a mutation behind the pointer found under a name is a new object stored under
  that name.
\<close>

datatype as3Object =
  ServiceObj as3Service
  | EndpointPolicyObj as3EndpointPolicy
  | OtherObj string

type_synonym as3Application = "string \<Rightarrow> as3Object option"

datatype diagnostic = UnsupportedResourceType ResourceType

text \<open>
  The state that one pass threads through its stages: the shared application, the
  store of rule objects with the next free address, and the warnings logged so far.
\<close>

record pass =
  sharedApp :: as3Application
  rules :: ruleStore
  nextRef :: ruleRef
  diagnostics :: "diagnostic list"

section \<open>TLS attachment stage\<close>

text \<open>
  Modelled from the spec: \<^verbatim>\<open>updateVirtualToHTTPS\<close> is defined outside src. The spec
  (section 4.1) says that a written TLS entry upgrades the Service's protocol to HTTPS.
\<close>

definition updateVirtualToHTTPS :: "as3Service \<Rightarrow> as3Service" where
  "updateVirtualToHTTPS v = v\<lparr>Protocol := Service_HTTPS\<rparr>"

text \<open>
  One turn of the loop of \<^verbatim>\<open>processIngressTLSProfilesForAS3\<close>. The loop carries the
  local slice \<^verbatim>\<open>serverTLS\<close> and the Service object behind the pointer \<^verbatim>\<open>svc\<close>.
\<close>

definition ingressProfileStep ::
  "ProfileRef \<Rightarrow> as3ResourcePointer list \<times> as3Service \<Rightarrow> as3ResourcePointer list \<times> as3Service" where
  "ingressProfileStep profile acc =
     (case acc of (serverTLS, svc) \<Rightarrow>
        if Partition profile = ''Common'' then
          (case Context profile of
             CustomProfileClient \<Rightarrow>
               (let rsPointer = \<lparr>BigIP = ''/'' @ Partition profile @ ''/'' @ Name profile\<rparr>;
                    serverTLS = serverTLS @ [rsPointer]
                in (serverTLS, updateVirtualToHTTPS (svc\<lparr>ServerTLS := serverTLS\<rparr>)))
           | CustomProfileServer \<Rightarrow>
               (serverTLS,
                updateVirtualToHTTPS
                  (svc\<lparr>ClientTLS := Some \<lparr>BigIP = ''/'' @ Partition profile @ ''/'' @ Name profile\<rparr>\<rparr>))
           | CustomProfileOther c \<Rightarrow> (serverTLS, svc))
        else (serverTLS, svc))"

definition processIngressTLSProfilesForAS3 :: "Virtual \<Rightarrow> as3Service \<Rightarrow> as3Service" where
  "processIngressTLSProfilesForAS3 virtual svc =
     snd (fold ingressProfileStep (Profiles virtual) ([], svc))"

text \<open>One turn of the loop of \<^verbatim>\<open>processRouteTLSProfilesForAS3\<close>.\<close>

definition routeProfileStep ::
  "RouteKey \<times> string \<Rightarrow> as3ResourcePointer list \<times> as3Service \<Rightarrow> as3ResourcePointer list \<times> as3Service" where
  "routeProfileStep entry acc =
     (case entry of (key, val) \<Rightarrow>
      case acc of (serverTLS, svc) \<Rightarrow>
        (case KeyContext key of
           CustomProfileClient \<Rightarrow>
             (let rsPointer = \<lparr>BigIP = val\<rparr>;
                  serverTLS = serverTLS @ [rsPointer]
              in (serverTLS, updateVirtualToHTTPS (svc\<lparr>ServerTLS := serverTLS\<rparr>)))
         | CustomProfileServer \<Rightarrow>
             (serverTLS, updateVirtualToHTTPS (svc\<lparr>ClientTLS := Some \<lparr>BigIP = val\<rparr>\<rparr>))
         | CustomProfileOther c \<Rightarrow> (serverTLS, svc)))"

definition processRouteTLSProfilesForAS3 :: "MetaData \<Rightarrow> as3Service \<Rightarrow> as3Service" where
  "processRouteTLSProfilesForAS3 metadata svc =
     snd (fold routeProfileStep (RouteProfs metadata) ([], svc))"

text \<open>
  The functions and methods that \<^verbatim>\<open>as3Resource.go\<close> calls and that are defined
  outside src, taken as parameters: the name formatter and the four stages that run
  around the TLS and WAF stages.
\<close>

record externals =
  as3FormatedString :: "string \<Rightarrow> ResourceType \<Rightarrow> string"
  processResourcesForAS3 :: "pass \<Rightarrow> pass"
  processCustomProfilesForAS3 :: "pass \<Rightarrow> pass"
  processIRulesForAS3 :: "pass \<Rightarrow> pass"
  processDataGroupForAS3 :: "pass \<Rightarrow> pass"

text \<open>
  One turn of the loop of \<^verbatim>\<open>processProfilesForAS3\<close> over \<^verbatim>\<open>am.Resources.RsMap\<close>.
  The Service object is mutated behind its pointer; here the changed object is stored
  back under its name. A frontend whose name holds no Service is passed over before
  the resource type is looked at.
\<close>

definition profilesStep :: "externals \<Rightarrow> string \<times> ResourceConfig \<Rightarrow> pass \<Rightarrow> pass" where
  "profilesStep ext entry st =
     (case entry of (svcName, cfg) \<Rightarrow>
        (let key = as3FormatedString ext svcName (ResourceType (MetaData cfg)) in
         case sharedApp st key of
           Some (ServiceObj svc) \<Rightarrow>
             (case ResourceType (MetaData cfg) of
                ResourceTypeRoute \<Rightarrow>
                  st\<lparr>sharedApp := (sharedApp st)
                       (key \<mapsto> ServiceObj (processRouteTLSProfilesForAS3 (MetaData cfg) svc))\<rparr>
              | ResourceTypeIngress \<Rightarrow>
                  st\<lparr>sharedApp := (sharedApp st)
                       (key \<mapsto> ServiceObj (processIngressTLSProfilesForAS3 (Virtual cfg) svc))\<rparr>
              | ResourceTypeOther t \<Rightarrow>
                  st\<lparr>diagnostics := diagnostics st
                       @ [UnsupportedResourceType (ResourceType (MetaData cfg))]\<rparr>)
         | _ \<Rightarrow> st))"

text \<open>
  Modelled from the spec: the type \<^verbatim>\<open>Record\<close> is declared outside src. Following
  section 3 of the spec, an exposure record carries the identifier of the rule it
  names.
\<close>

type_synonym Record = string

text \<open>
  The exposure of a record is the field \<^verbatim>\<open>Virtual\<close> of the \<^verbatim>\<open>F5Resources\<close> stored
  under it; the field is \<open>Virtual_res\<close> here.
\<close>

record F5Resources =
  Virtual_res :: VirtualType

text \<open>
  \<^verbatim>\<open>RsMap\<close> and \<^verbatim>\<open>IntF5Res\<close> are Go maps; as for \<^verbatim>\<open>RouteProfs\<close>, the lists give
  their entries in the order of the range statement. \<^verbatim>\<open>IntF5Res\<close> maps a group
  name to a map from exposure records to \<^verbatim>\<open>F5Resources\<close>; the keys of one group are
  distinct, and two groups can hold the same key. \<^verbatim>\<open>DEFAULT_PARTITION\<close> is a
  variable of the package; it is kept with the manager.
\<close>

record AS3Manager =
  RsMap :: "(string \<times> ResourceConfig) list"
  IntF5Res :: "(string \<times> (Record \<times> F5Resources) list) list"
  userAgent :: string
  DEFAULT_PARTITION :: string

definition processProfilesForAS3 :: "externals \<Rightarrow> AS3Manager \<Rightarrow> pass \<Rightarrow> pass" where
  "processProfilesForAS3 ext am st = fold (profilesStep ext) (RsMap am) st"

section \<open>WAF injection stage\<close>

text \<open>The three objects that \<^verbatim>\<open>processF5ResourcesForAS3\<close> builds from struct literals.\<close>

definition wafDisableAction :: as3Action where
  "wafDisableAction = \<lparr>Type = ''waf'', Event = '''', Enabled = Some False\<rparr>"

definition wafDropAction :: as3Action where
  "wafDropAction = \<lparr>Type = ''drop'', Event = ''request'', Enabled = None\<rparr>"

definition wafDisableRule :: as3Rule where
  "wafDisableRule =
     \<lparr>RuleName = ''openshift_route_waf_disable'', Actions = [wafDropAction, wafDisableAction]\<rparr>"

text \<open>The inner loop of the closure \<^verbatim>\<open>addWAFDisableAction\<close>: does a rule hold an action of type waf?\<close>

definition isWAFRule :: "as3Rule \<Rightarrow> bool" where
  "isWAFRule rule = list_ex (\<lambda>action. Type action = ''waf'') (Actions rule)"

definition addWAFDisableStep :: "ruleRef \<Rightarrow> ruleStore \<Rightarrow> ruleStore" where
  "addWAFDisableStep rule store =
     (if isWAFRule (store rule) then store
      else store(rule := (store rule)\<lparr>Actions := Actions (store rule) @ [wafDisableAction]\<rparr>))"

definition addWAFDisableAction :: "as3EndpointPolicy \<Rightarrow> ruleStore \<Rightarrow> ruleStore" where
  "addWAFDisableAction ep store = fold addWAFDisableStep (Rules ep) store"

text \<open>
  Modelled from the spec: the action that \<^verbatim>\<open>updatePolicyWithWAF\<close> appends is built
  outside src. Following sections 3 and 4.2 of the spec, a WAF-enable action is an
  action of kind waf whose enabled flag is true.
\<close>

definition wafEnableAction :: as3Action where
  "wafEnableAction = \<lparr>Type = ''waf'', Event = '''', Enabled = Some True\<rparr>"

text \<open>
  Modelled from the spec: \<^verbatim>\<open>updatePolicyWithWAF\<close> is defined outside src. The spec
  (section 4.2) says that it appends a WAF-enable action to the rule that the record
  identifies, that the identifier is taken to be unique in the policy, and that a
  record naming no rule of the policy creates no rule. The rule is looked up by name,
  the first match in the order of the policy.
\<close>

definition updatePolicyWithWAF ::
  "as3EndpointPolicy \<Rightarrow> Record \<Rightarrow> F5Resources \<Rightarrow> ruleStore \<Rightarrow> ruleStore" where
  "updatePolicyWithWAF ep rec res store =
     (case find (\<lambda>rule. RuleName (store rule) = rec) (Rules ep) of
        None \<Rightarrow> store
      | Some rule \<Rightarrow>
          store(rule := (store rule)\<lparr>Actions := Actions (store rule) @ [wafEnableAction]\<rparr>))"

text \<open>
  \<^verbatim>\<open>sharedApp[name].(*as3EndpointPolicy)\<close> with the second result dropped: nil when
  the name is absent or holds an object of another type.
\<close>

definition endpointPolicyAt :: "as3Application \<Rightarrow> string \<Rightarrow> as3EndpointPolicy option" where
  "endpointPolicyAt app name =
     (case app name of Some (EndpointPolicyObj ep) \<Rightarrow> Some ep | _ \<Rightarrow> None)"

text \<open>The local variables that the loop over \<^verbatim>\<open>am.IntF5Res\<close> changes.\<close>

record wafLocals =
  isSecureWAF :: bool
  isInsecureWAF :: bool
  wafRules :: ruleStore

text \<open>The body \<^verbatim>\<open>if secureEP != nil { ... }\<close>, written twice in the switch.\<close>

definition secureCase ::
  "as3EndpointPolicy option \<Rightarrow> Record \<Rightarrow> F5Resources \<Rightarrow> wafLocals \<Rightarrow> wafLocals" where
  "secureCase secureEP rec res l =
     (case secureEP of
        None \<Rightarrow> l
      | Some ep \<Rightarrow> l\<lparr>isSecureWAF := True, wafRules := updatePolicyWithWAF ep rec res (wafRules l)\<rparr>)"

text \<open>The body \<^verbatim>\<open>if insecureEP != nil { ... }\<close>.\<close>

definition insecureCase ::
  "as3EndpointPolicy option \<Rightarrow> Record \<Rightarrow> F5Resources \<Rightarrow> wafLocals \<Rightarrow> wafLocals" where
  "insecureCase insecureEP rec res l =
     (case insecureEP of
        None \<Rightarrow> l
      | Some ep \<Rightarrow> l\<lparr>isInsecureWAF := True, wafRules := updatePolicyWithWAF ep rec res (wafRules l)\<rparr>)"

text \<open>
  The switch on \<^verbatim>\<open>res.Virtual\<close>: the case \<^verbatim>\<open>HTTPANDS\<close> ends in \<^verbatim>\<open>fallthrough\<close> and
  so runs the body of the case \<^verbatim>\<open>HTTP\<close> after its own.
\<close>

definition f5ResourceStep ::
  "as3EndpointPolicy option \<Rightarrow> as3EndpointPolicy option \<Rightarrow> Record \<times> F5Resources
     \<Rightarrow> wafLocals \<Rightarrow> wafLocals" where
  "f5ResourceStep secureEP insecureEP entry l =
     (case entry of (rec, res) \<Rightarrow>
        (case Virtual_res res of
           HTTPS \<Rightarrow> secureCase secureEP rec res l
         | HTTPANDS \<Rightarrow> insecureCase insecureEP rec res (secureCase secureEP rec res l)
         | HTTP \<Rightarrow> insecureCase insecureEP rec res l
         | VirtualOther v \<Rightarrow> l))"

definition f5GroupStep ::
  "as3EndpointPolicy option \<Rightarrow> as3EndpointPolicy option
     \<Rightarrow> string \<times> (Record \<times> F5Resources) list \<Rightarrow> wafLocals \<Rightarrow> wafLocals" where
  "f5GroupStep secureEP insecureEP entry l =
     (case entry of (groupName, resGroup) \<Rightarrow>
        fold (f5ResourceStep secureEP insecureEP) resGroup l)"

text \<open>The first half of \<^verbatim>\<open>processF5ResourcesForAS3\<close>, up to the end of the loop.\<close>

definition updateRulesWithWAF :: "AS3Manager \<Rightarrow> pass \<Rightarrow> wafLocals" where
  "updateRulesWithWAF am st =
     (let secureEP = endpointPolicyAt (sharedApp st) ''openshift_secure_routes'';
          insecureEP = endpointPolicyAt (sharedApp st) ''openshift_insecure_routes''
      in fold (f5GroupStep secureEP insecureEP) (IntF5Res am)
           \<lparr>isSecureWAF = False, isInsecureWAF = False, wafRules = rules st\<rparr>)"

text \<open>
  \<^verbatim>\<open>ep.Rules = append(ep.Rules, wafDisableRule); addWAFDisableAction(ep)\<close> for the
  policy stored under a name, where \<open>ref\<close> is the address of the rule
  \<^verbatim>\<open>wafDisableRule\<close>.
\<close>

definition appendWAFDisableRule :: "string \<Rightarrow> ruleRef \<Rightarrow> pass \<Rightarrow> pass" where
  "appendWAFDisableRule name ref st =
     (case endpointPolicyAt (sharedApp st) name of
        None \<Rightarrow> st
      | Some ep \<Rightarrow>
          (let ep = ep\<lparr>Rules := Rules ep @ [ref]\<rparr>
           in st\<lparr>sharedApp := (sharedApp st)(name \<mapsto> EndpointPolicyObj ep),
                 rules := addWAFDisableAction ep (rules st)\<rparr>))"

text \<open>
  The whole stage. \<^verbatim>\<open>&as3Rule{...}\<close> allocates the trailing rule once, at the next
  free address, whether or not a policy is touched; both policies receive that one
  address.
\<close>

definition processF5ResourcesForAS3 :: "AS3Manager \<Rightarrow> pass \<Rightarrow> pass" where
  "processF5ResourcesForAS3 am st =
     (let l = updateRulesWithWAF am st;
          ref = nextRef st;
          st = st\<lparr>rules := (wafRules l)(ref := wafDisableRule), nextRef := Suc ref\<rparr>;
          st = (if isSecureWAF l then appendWAFDisableRule ''openshift_secure_routes'' ref st else st)
      in if isInsecureWAF l then appendWAFDisableRule ''openshift_insecure_routes'' ref st else st)"

section \<open>Declaration assembly\<close>

text \<open>
  Modelled from the spec: the types \<^verbatim>\<open>as3ADC\<close>, \<^verbatim>\<open>as3Control\<close> and \<^verbatim>\<open>AS3Config\<close> are
  declared outside src. Following sections 3 and 4.3 of the spec, a declaration is the
  name of its partition, the shared application of that partition with its rule
  objects, and the controls header carrying the client tag; a configuration holds a
  declaration and the raw override payload.
\<close>

record as3Control =
  controlUserAgent :: string

record as3ADC =
  partition :: string
  shared :: as3Application
  ruleObjects :: ruleStore
  controls :: "as3Control option"

record AS3ConfigMap =
  Data :: string

record AS3Config =
  adc :: as3ADC
  overrideConfigmap :: AS3ConfigMap

text \<open>
  Modelled from the spec: the method \<^verbatim>\<open>isDefaultAS3PartitionEmpty\<close> is defined outside
  src. Following section 4.3 of the spec, it holds when the name of the declaration's
  target partition is empty.
\<close>

definition isDefaultAS3PartitionEmpty :: "AS3Config \<Rightarrow> bool" where
  "isDefaultAS3PartitionEmpty c = (partition (adc c) = '''')"

text \<open>
  Modelled from the spec: the methods \<^verbatim>\<open>initDefault\<close> and \<^verbatim>\<open>getAS3SharedApp\<close> are
  defined outside src. Following section 3 of the spec, the declaration tree is created
  fresh for each pass: the shared application holds no object, no rule address is in
  use and nothing is logged.
\<close>

definition initDefault :: pass where
  "initDefault =
     \<lparr>sharedApp = Map.empty, rules = (\<lambda>ref. \<lparr>RuleName = '''', Actions = []\<rparr>), nextRef = 0,
      diagnostics = []\<rparr>"

text \<open>
  \<^verbatim>\<open>generateAS3ResourceDeclaration\<close>: the six stages in the order of the source. The
  result is the state of the pass, from which the caller takes the declaration.
\<close>

definition generateAS3ResourceDeclaration :: "externals \<Rightarrow> AS3Manager \<Rightarrow> pass" where
  "generateAS3ResourceDeclaration ext am =
     processF5ResourcesForAS3 am
       (processDataGroupForAS3 ext
         (processIRulesForAS3 ext
           (processProfilesForAS3 ext am
             (processCustomProfilesForAS3 ext
               (processResourcesForAS3 ext initDefault)))))"

definition prepareAS3ResourceConfig ::
  "externals \<Rightarrow> AS3Manager \<Rightarrow> AS3Config \<Rightarrow> AS3Config \<times> diagnostic list" where
  "prepareAS3ResourceConfig ext am routeCfg =
     (let st = generateAS3ResourceDeclaration ext am;
          routeCfg = routeCfg\<lparr>adc :=
            \<lparr>partition = DEFAULT_PARTITION am, shared = sharedApp st, ruleObjects = rules st,
             controls = None\<rparr>\<rparr>;
          controlObj = \<lparr>controlUserAgent = userAgent am\<rparr>;
          routeCfg = routeCfg\<lparr>adc := (adc routeCfg)\<lparr>controls := Some controlObj\<rparr>\<rparr>;
          routeCfg = (if isDefaultAS3PartitionEmpty routeCfg
                      then routeCfg\<lparr>overrideConfigmap := (overrideConfigmap routeCfg)\<lparr>Data := ''''\<rparr>\<rparr>
                      else routeCfg)
      in (routeCfg, diagnostics st))"

section \<open>Notions used to state the properties\<close>

text \<open>The name holds a Service object (the type assertion of \<^verbatim>\<open>processProfilesForAS3\<close> succeeds).\<close>

definition serviceAt :: "as3Application \<Rightarrow> string \<Rightarrow> bool" where
  "serviceAt app key = (case app key of Some (ServiceObj svc) \<Rightarrow> True | _ \<Rightarrow> False)"

text \<open>The name holds a Service object whose protocol is HTTPS.\<close>

definition httpsServiceAt :: "as3Application \<Rightarrow> string \<Rightarrow> bool" where
  "httpsServiceAt app key =
     (case app key of Some (ServiceObj svc) \<Rightarrow> Protocol svc = Service_HTTPS | _ \<Rightarrow> False)"

text \<open>
  A frontend has an entry that its reader writes: for a Route a key of client or server
  context, for an Ingress a profile of the partition Common of client or server
  context.
\<close>

definition eligibleTLSEntry :: "ResourceConfig \<Rightarrow> bool" where
  "eligibleTLSEntry cfg =
     (case ResourceType (MetaData cfg) of
        ResourceTypeRoute \<Rightarrow>
          list_ex (\<lambda>e. KeyContext (fst e) = CustomProfileClient \<or> KeyContext (fst e) = CustomProfileServer)
            (RouteProfs (MetaData cfg))
      | ResourceTypeIngress \<Rightarrow>
          list_ex (\<lambda>p. Partition p = ''Common'' \<and>
                       (Context p = CustomProfileClient \<or> Context p = CustomProfileServer))
            (Profiles (Virtual cfg))
      | ResourceTypeOther t \<Rightarrow> False)"

text \<open>The number of actions of type waf that a rule holds.\<close>

definition wafActionCount :: "as3Rule \<Rightarrow> nat" where
  "wafActionCount rule = length (filter (\<lambda>action. Type action = ''waf'') (Actions rule))"

text \<open>The rule addresses of a policy pointer; none for the nil pointer.\<close>

definition rulesOf :: "as3EndpointPolicy option \<Rightarrow> ruleRef list" where
  "rulesOf epOpt = (case epOpt of None \<Rightarrow> [] | Some ep \<Rightarrow> Rules ep)"

text \<open>
  A policy name is touched when the loop of the WAF stage has set the flag of its
  policy: \<^verbatim>\<open>isSecureWAF\<close> for the secure routes, \<^verbatim>\<open>isInsecureWAF\<close> for the insecure ones.
\<close>

definition touched :: "AS3Manager \<Rightarrow> pass \<Rightarrow> string \<Rightarrow> bool" where
  "touched am st name =
     (name = ''openshift_secure_routes'' \<and> isSecureWAF (updateRulesWithWAF am st)
      \<or> name = ''openshift_insecure_routes'' \<and> isInsecureWAF (updateRulesWithWAF am st))"

text \<open>
  The state of \<^verbatim>\<open>processF5ResourcesForAS3\<close> after the trailing rule is allocated, and
  after the block for the secure policy; the stage is the block for the insecure policy
  applied to the latter.
\<close>

definition wafAllocated :: "AS3Manager \<Rightarrow> pass \<Rightarrow> pass" where
  "wafAllocated am st =
     st\<lparr>rules := (wafRules (updateRulesWithWAF am st))(nextRef st := wafDisableRule),
        nextRef := Suc (nextRef st)\<rparr>"

definition wafSecureDone :: "AS3Manager \<Rightarrow> pass \<Rightarrow> pass" where
  "wafSecureDone am st =
     (if isSecureWAF (updateRulesWithWAF am st)
      then appendWAFDisableRule ''openshift_secure_routes'' (nextRef st) (wafAllocated am st)
      else wafAllocated am st)"

text \<open>Raising the two flags of the loop: a flag that is set stays set.\<close>

definition orFlags :: "bool \<Rightarrow> bool \<Rightarrow> wafLocals \<Rightarrow> wafLocals" where
  "orFlags s i l = l\<lparr>isSecureWAF := isSecureWAF l \<or> s, isInsecureWAF := isInsecureWAF l \<or> i\<rparr>"

section \<open>Concrete inputs\<close>

text \<open>
  Small inputs on which the theorems below are instantiated: a Service as the base
  stage leaves it, a Service that already holds a ServerTLS pointer of a custom
  profile, and frontends of each resource type.
\<close>

definition exService :: as3Service where
  "exService = \<lparr>Protocol = Service_HTTP, ServerTLS = [], ClientTLS = None\<rparr>"

definition exServiceCustom :: as3Service where
  "exServiceCustom =
     \<lparr>Protocol = Service_HTTPS, ServerTLS = [\<lparr>BigIP = ''/Common/custom''\<rparr>], ClientTLS = None\<rparr>"

definition exIngressProfiles :: "ProfileRef list" where
  "exIngressProfiles =
     [\<lparr>Partition = ''Common'', Name = ''a'', Context = CustomProfileClient\<rparr>,
      \<lparr>Partition = ''tenant1'', Name = ''b'', Context = CustomProfileClient\<rparr>,
      \<lparr>Partition = ''Common'', Name = ''s'', Context = CustomProfileServer\<rparr>,
      \<lparr>Partition = ''Common'', Name = ''http'', Context = CustomProfileOther ''all''\<rparr>,
      \<lparr>Partition = ''Common'', Name = ''c'', Context = CustomProfileClient\<rparr>]"

definition exIngress :: ResourceConfig where
  "exIngress =
     \<lparr>MetaData = \<lparr>ResourceType = ResourceTypeIngress, RouteProfs = []\<rparr>,
      Virtual = \<lparr>Profiles = exIngressProfiles\<rparr>\<rparr>"

text \<open>An Ingress whose only TLS profile lies in another partition.\<close>

definition exIngressForeign :: ResourceConfig where
  "exIngressForeign =
     \<lparr>MetaData = \<lparr>ResourceType = ResourceTypeIngress, RouteProfs = []\<rparr>,
      Virtual = \<lparr>Profiles = [\<lparr>Partition = ''tenant1'', Name = ''b'', Context = CustomProfileClient\<rparr>]\<rparr>\<rparr>"

text \<open>
  A Route map with two client entries and two server entries, and the same map ranged
  over in the opposite order.
\<close>

definition exRouteProfs :: "(RouteKey \<times> string) list" where
  "exRouteProfs =
     [(\<lparr>KeyName = ''r1'', KeyNamespace = ''ns'', KeyContext = CustomProfileClient\<rparr>, ''/Common/c1''),
      (\<lparr>KeyName = ''r1'', KeyNamespace = ''ns'', KeyContext = CustomProfileServer\<rparr>, ''/Common/s1''),
      (\<lparr>KeyName = ''r2'', KeyNamespace = ''ns'', KeyContext = CustomProfileClient\<rparr>, ''/Common/c2''),
      (\<lparr>KeyName = ''r2'', KeyNamespace = ''ns'', KeyContext = CustomProfileServer\<rparr>, ''/Common/s2'')]"

definition exRoute :: ResourceConfig where
  "exRoute =
     \<lparr>MetaData = \<lparr>ResourceType = ResourceTypeRoute, RouteProfs = exRouteProfs\<rparr>,
      Virtual = \<lparr>Profiles = []\<rparr>\<rparr>"

definition exOther :: ResourceConfig where
  "exOther =
     \<lparr>MetaData = \<lparr>ResourceType = ResourceTypeOther ''configmap'', RouteProfs = []\<rparr>,
      Virtual = \<lparr>Profiles = []\<rparr>\<rparr>"

text \<open>The stages outside src as identities, and names formatted as they are.\<close>

definition exExt :: externals where
  "exExt =
     \<lparr>as3FormatedString = (\<lambda>str t. str),
      processResourcesForAS3 = (\<lambda>st. st),
      processCustomProfilesForAS3 = (\<lambda>st. st),
      processIRulesForAS3 = (\<lambda>st. st),
      processDataGroupForAS3 = (\<lambda>st. st)\<rparr>"

definition exTLSPass :: pass where
  "exTLSPass =
     initDefault\<lparr>sharedApp :=
       [''ing'' \<mapsto> ServiceObj exService, ''route'' \<mapsto> ServiceObj exService,
        ''cm'' \<mapsto> ServiceObj exServiceCustom, ''foreign'' \<mapsto> ServiceObj exService]\<rparr>"

definition exTLSManager :: AS3Manager where
  "exTLSManager =
     \<lparr>RsMap = [(''ing'', exIngress), (''cm'', exOther), (''route'', exRoute),
               (''foreign'', exIngressForeign)],
      IntF5Res = [], userAgent = ''CIS'', DEFAULT_PARTITION = ''''\<rparr>"

text \<open>
  A pass before the WAF stage: the secure policy holds the rules \<open>r1\<close> and \<open>r3\<close>, the
  insecure policy a rule of its own named \<open>r1\<close>; no rule holds an action.
\<close>

definition exRuleStore :: ruleStore where
  "exRuleStore =
     (\<lambda>ref. \<lparr>RuleName = '''', Actions = []\<rparr>)
       (0 := \<lparr>RuleName = ''r1'', Actions = []\<rparr>,
        1 := \<lparr>RuleName = ''r3'', Actions = []\<rparr>,
        2 := \<lparr>RuleName = ''r1'', Actions = []\<rparr>)"

definition exWAFPass :: pass where
  "exWAFPass =
     \<lparr>sharedApp =
        [''openshift_secure_routes'' \<mapsto> EndpointPolicyObj \<lparr>Rules = [0, 1]\<rparr>,
         ''openshift_insecure_routes'' \<mapsto> EndpointPolicyObj \<lparr>Rules = [2]\<rparr>],
      rules = exRuleStore, nextRef = 3, diagnostics = []\<rparr>"

text \<open>One record exposed under both protocols, and one of an unsupported exposure.\<close>

definition exWAFManager :: AS3Manager where
  "exWAFManager =
     \<lparr>RsMap = [],
      IntF5Res = [(''g1'', [(''r1'', \<lparr>Virtual_res = HTTPANDS\<rparr>),
                            (''r9'', \<lparr>Virtual_res = VirtualOther ''tcp''\<rparr>)])],
      userAgent = ''CIS'', DEFAULT_PARTITION = ''''\<rparr>"

text \<open>Two groups that each hold a record for the rule \<open>r1\<close>.\<close>

definition exDuplicateManager :: AS3Manager where
  "exDuplicateManager =
     \<lparr>RsMap = [],
      IntF5Res = [(''g1'', [(''r1'', \<lparr>Virtual_res = HTTPS\<rparr>)]),
                  (''g2'', [(''r1'', \<lparr>Virtual_res = HTTPS\<rparr>)])],
      userAgent = ''CIS'', DEFAULT_PARTITION = ''k8s''\<rparr>"

text \<open>A single record, naming a rule that the secure policy does not hold.\<close>

definition exMissingManager :: AS3Manager where
  "exMissingManager =
     \<lparr>RsMap = [],
      IntF5Res = [(''g1'', [(''r7'', \<lparr>Virtual_res = HTTPS\<rparr>)])],
      userAgent = ''CIS'', DEFAULT_PARTITION = ''k8s''\<rparr>"

text \<open>A single record of an unsupported exposure.\<close>

definition exUnknownManager :: AS3Manager where
  "exUnknownManager =
     \<lparr>RsMap = [],
      IntF5Res = [(''g1'', [(''r1'', \<lparr>Virtual_res = VirtualOther ''tcp''\<rparr>)])],
      userAgent = ''CIS'', DEFAULT_PARTITION = ''k8s''\<rparr>"

text \<open>A configuration that carries a user override.\<close>

definition exRouteCfg :: AS3Config where
  "exRouteCfg =
     \<lparr>adc = \<lparr>partition = '''', shared = Map.empty, ruleObjects = rules initDefault,
              controls = None\<rparr>,
      overrideConfigmap = \<lparr>Data = ''{ override }''\<rparr>\<rparr>"

section \<open>The TLS attachment stage: properties\<close>


lemma ingress_fold_ServerTLS:
  "ServerTLS (snd (fold ingressProfileStep ps (acc, svc))) =
     (if filter (\<lambda>p. Partition p = ''Common'' \<and> Context p = CustomProfileClient) ps = []
      then ServerTLS svc
      else acc @ map (\<lambda>p. \<lparr>BigIP = ''/'' @ Partition p @ ''/'' @ Name p\<rparr>)
             (filter (\<lambda>p. Partition p = ''Common'' \<and> Context p = CustomProfileClient) ps))"
  by (induction ps arbitrary: acc svc)
     (auto simp: ingressProfileStep_def Let_def updateVirtualToHTTPS_def split: ProfileContext.splits)

lemma ingress_fold_Protocol_keep:
  "Protocol svc = Service_HTTPS \<Longrightarrow>
   Protocol (snd (fold ingressProfileStep ps (acc, svc))) = Service_HTTPS"
  by (induction ps arbitrary: acc svc)
     (auto simp: ingressProfileStep_def Let_def updateVirtualToHTTPS_def split: ProfileContext.splits)

lemma ingressProfileStep_upgrade:
  "Partition p = ''Common'' \<Longrightarrow>
   Context p = CustomProfileClient \<or> Context p = CustomProfileServer \<Longrightarrow>
   Protocol (snd (ingressProfileStep p (acc, svc))) = Service_HTTPS"
  by (auto simp: ingressProfileStep_def Let_def updateVirtualToHTTPS_def)

lemma routeProfileStep_upgrade:
  "KeyContext (fst e) = CustomProfileClient \<or> KeyContext (fst e) = CustomProfileServer \<Longrightarrow>
   Protocol (snd (routeProfileStep e (acc, svc))) = Service_HTTPS"
  by (cases e) (auto simp: routeProfileStep_def Let_def updateVirtualToHTTPS_def)

lemma ingress_fold_Protocol_upgrade:
  "p \<in> set ps \<Longrightarrow> Partition p = ''Common'' \<Longrightarrow>
   Context p = CustomProfileClient \<or> Context p = CustomProfileServer \<Longrightarrow>
   Protocol (snd (fold ingressProfileStep ps (acc, svc))) = Service_HTTPS"
proof (induction ps arbitrary: acc svc)
  case Nil
  then show ?case by simp
next
  case (Cons q ps)
  show ?case
  proof (cases "p = q")
    case True
    with Cons.prems have "Protocol (snd (ingressProfileStep q (acc, svc))) = Service_HTTPS"
      by (simp add: ingressProfileStep_upgrade)
    then show ?thesis
      by (cases "ingressProfileStep q (acc, svc)") (simp add: ingress_fold_Protocol_keep)
  next
    case False
    with Cons.prems have "p \<in> set ps" by simp
    from Cons.IH[OF this Cons.prems(2,3)] show ?thesis
      by (cases "ingressProfileStep q (acc, svc)") simp
  qed
qed

lemma route_fold_Protocol_keep:
  "Protocol svc = Service_HTTPS \<Longrightarrow>
   Protocol (snd (fold routeProfileStep es (acc, svc))) = Service_HTTPS"
  by (induction es arbitrary: acc svc)
     (auto simp: routeProfileStep_def Let_def updateVirtualToHTTPS_def split: ProfileContext.splits)

lemma route_fold_Protocol_upgrade:
  "e \<in> set es \<Longrightarrow>
   KeyContext (fst e) = CustomProfileClient \<or> KeyContext (fst e) = CustomProfileServer \<Longrightarrow>
   Protocol (snd (fold routeProfileStep es (acc, svc))) = Service_HTTPS"
proof (induction es arbitrary: acc svc)
  case Nil
  then show ?case by simp
next
  case (Cons q es)
  show ?case
  proof (cases "e = q")
    case True
    with Cons.prems have "Protocol (snd (routeProfileStep q (acc, svc))) = Service_HTTPS"
      by (simp add: routeProfileStep_upgrade)
    then show ?thesis
      by (cases "routeProfileStep q (acc, svc)") (simp add: route_fold_Protocol_keep)
  next
    case False
    with Cons.prems have "e \<in> set es" by simp
    from Cons.IH[OF this Cons.prems(2)] show ?thesis
      by (cases "routeProfileStep q (acc, svc)") simp
  qed
qed





lemma profilesStep_serviceAt:
  "serviceAt (sharedApp st) k \<Longrightarrow> serviceAt (sharedApp (profilesStep ext e st)) k"
  by (cases e)
     (auto simp: profilesStep_def serviceAt_def Let_def
           split: option.splits as3Object.splits ResourceType.splits)

lemma profilesStep_https_keep:
  "httpsServiceAt (sharedApp st) k \<Longrightarrow> httpsServiceAt (sharedApp (profilesStep ext e st)) k"
  by (cases e)
     (auto simp: profilesStep_def httpsServiceAt_def Let_def
                 processRouteTLSProfilesForAS3_def processIngressTLSProfilesForAS3_def
                 route_fold_Protocol_keep ingress_fold_Protocol_keep
           split: option.splits as3Object.splits ResourceType.splits)

lemma profilesStep_upgrade:
  assumes "eligibleTLSEntry cfg"
    and "serviceAt (sharedApp st) (as3FormatedString ext svcName (ResourceType (MetaData cfg)))"
  shows "httpsServiceAt (sharedApp (profilesStep ext (svcName, cfg) st))
           (as3FormatedString ext svcName (ResourceType (MetaData cfg)))"
proof (cases "ResourceType (MetaData cfg)")
  case ResourceTypeRoute
  with assms(1) obtain e where e: "e \<in> set (RouteProfs (MetaData cfg))"
      "KeyContext (fst e) = CustomProfileClient \<or> KeyContext (fst e) = CustomProfileServer"
    by (auto simp: eligibleTLSEntry_def list_ex_iff)
  from assms(2) ResourceTypeRoute show ?thesis
    by (auto simp: profilesStep_def httpsServiceAt_def serviceAt_def Let_def
                   processRouteTLSProfilesForAS3_def route_fold_Protocol_upgrade[OF e]
             split: option.splits as3Object.splits)
next
  case ResourceTypeIngress
  with assms(1) obtain p where p: "p \<in> set (Profiles (Virtual cfg))" "Partition p = ''Common''"
      "Context p = CustomProfileClient \<or> Context p = CustomProfileServer"
    by (auto simp: eligibleTLSEntry_def list_ex_iff)
  from assms(2) ResourceTypeIngress show ?thesis
    by (auto simp: profilesStep_def httpsServiceAt_def serviceAt_def Let_def
                   processIngressTLSProfilesForAS3_def ingress_fold_Protocol_upgrade[OF p]
             split: option.splits as3Object.splits)
next
  case (ResourceTypeOther t)
  with assms(1) show ?thesis by (simp add: eligibleTLSEntry_def)
qed

lemma profiles_fold_https_keep:
  "httpsServiceAt (sharedApp st) k \<Longrightarrow> httpsServiceAt (sharedApp (fold (profilesStep ext) es st)) k"
  by (induction es arbitrary: st) (simp_all add: profilesStep_https_keep)

lemma profiles_fold_upgrade:
  assumes "(svcName, cfg) \<in> set es" and "eligibleTLSEntry cfg"
    and "serviceAt (sharedApp st) (as3FormatedString ext svcName (ResourceType (MetaData cfg)))"
  shows "httpsServiceAt (sharedApp (fold (profilesStep ext) es st))
           (as3FormatedString ext svcName (ResourceType (MetaData cfg)))"
  using assms
proof (induction es arbitrary: st)
  case Nil
  then show ?case by simp
next
  case (Cons e es)
  show ?case
  proof (cases "e = (svcName, cfg)")
    case True
    then show ?thesis
      using profilesStep_upgrade[OF Cons.prems(2,3)]
      by (simp add: profiles_fold_https_keep)
  next
    case False
    with Cons.prems(1) have "(svcName, cfg) \<in> set es" by simp
    from Cons.IH[OF this Cons.prems(2) profilesStep_serviceAt[OF Cons.prems(3)]]
    show ?thesis by simp
  qed
qed

lemma profilesStep_sharedApp_cong:
  "sharedApp st1 = sharedApp st2 \<Longrightarrow>
   sharedApp (profilesStep ext e st1) = sharedApp (profilesStep ext e st2)"
  by (cases e)
     (simp add: profilesStep_def Let_def
           split: option.splits as3Object.splits ResourceType.splits)

lemma profiles_fold_sharedApp_cong:
  "sharedApp st1 = sharedApp st2 \<Longrightarrow>
   sharedApp (fold (profilesStep ext) es st1) = sharedApp (fold (profilesStep ext) es st2)"
proof (induction es arbitrary: st1 st2)
  case Nil
  then show ?case by simp
next
  case (Cons e es)
  from Cons.IH [OF profilesStep_sharedApp_cong [OF Cons.prems]] show ?case by simp
qed

lemma profilesStep_unsupported:
  "ResourceType (MetaData cfg) = ResourceTypeOther t \<Longrightarrow>
   profilesStep ext (svcName, cfg) st =
     (if serviceAt (sharedApp st) (as3FormatedString ext svcName (ResourceTypeOther t))
      then st\<lparr>diagnostics := diagnostics st @ [UnsupportedResourceType (ResourceTypeOther t)]\<rparr>
      else st)"
  by (simp add: profilesStep_def serviceAt_def Let_def split: option.splits as3Object.splits)

section \<open>The WAF injection stage: how the store of rules changes\<close>

lemma isWAFRule_count: "isWAFRule rule \<longleftrightarrow> 0 < wafActionCount rule"
  by (auto simp: isWAFRule_def wafActionCount_def list_ex_iff filter_empty_conv)

lemma wafActionCount_wafDisableRule: "wafActionCount wafDisableRule = 1"
  by (simp add: wafActionCount_def wafDisableRule_def wafDisableAction_def wafDropAction_def)

lemma wafActionCount_append_disable:
  "wafActionCount (rule\<lparr>Actions := Actions rule @ [wafDisableAction]\<rparr>) = Suc (wafActionCount rule)"
  by (simp add: wafActionCount_def wafDisableAction_def)

lemma wafActionCount_append_enable:
  "wafActionCount (rule\<lparr>Actions := Actions rule @ [wafEnableAction]\<rparr>) = Suc (wafActionCount rule)"
  by (simp add: wafActionCount_def wafEnableAction_def)

lemma addWAFDisable_fold:
  "fold addWAFDisableStep refs store a =
     (if a \<in> set refs \<and> \<not> isWAFRule (store a)
      then (store a)\<lparr>Actions := Actions (store a) @ [wafDisableAction]\<rparr>
      else store a)"
proof (induction refs arbitrary: store)
  case Nil
  then show ?case by simp
next
  case (Cons r refs)
  have appended: "isWAFRule (rule\<lparr>Actions := Actions rule @ [wafDisableAction]\<rparr>)" for rule
    by (simp add: isWAFRule_def wafDisableAction_def)
  show ?case
    by (simp add: Cons.IH) (auto simp: addWAFDisableStep_def appended)
qed

lemma addWAFDisableAction_at:
  "addWAFDisableAction ep store a =
     (if a \<in> set (Rules ep) \<and> \<not> isWAFRule (store a)
      then (store a)\<lparr>Actions := Actions (store a) @ [wafDisableAction]\<rparr>
      else store a)"
  by (simp only: addWAFDisableAction_def addWAFDisable_fold)

lemma addWAFDisableAction_count:
  "wafActionCount (addWAFDisableAction ep store a) =
     (if a \<in> set (Rules ep) \<and> wafActionCount (store a) = 0 then 1 else wafActionCount (store a))"
  by (simp add: addWAFDisableAction_at isWAFRule_count wafActionCount_append_disable)

lemma endpointPolicyAt_upd_same:
  "endpointPolicyAt (app(name \<mapsto> EndpointPolicyObj ep)) name = Some ep"
  by (simp add: endpointPolicyAt_def)

lemma appendWAFDisableRule_policy:
  "endpointPolicyAt (sharedApp (appendWAFDisableRule name ref st)) name =
     map_option (\<lambda>ep. ep\<lparr>Rules := Rules ep @ [ref]\<rparr>) (endpointPolicyAt (sharedApp st) name)"
  by (simp add: appendWAFDisableRule_def Let_def endpointPolicyAt_upd_same split: option.splits)

lemma appendWAFDisableRule_other:
  "name' \<noteq> name \<Longrightarrow>
   sharedApp (appendWAFDisableRule name ref st) name' = sharedApp st name'"
  by (simp add: appendWAFDisableRule_def Let_def split: option.splits)

lemma appendWAFDisableRule_rules:
  "rules (appendWAFDisableRule name ref st) =
     (case endpointPolicyAt (sharedApp st) name of
        None \<Rightarrow> rules st
      | Some ep \<Rightarrow> addWAFDisableAction (ep\<lparr>Rules := Rules ep @ [ref]\<rparr>) (rules st))"
  by (simp add: appendWAFDisableRule_def Let_def split: option.splits)

lemma appendWAFDisableRule_diagnostics:
  "diagnostics (appendWAFDisableRule name ref st) = diagnostics st"
  by (simp add: appendWAFDisableRule_def Let_def split: option.splits)

lemma find_Some_D: "find P xs = Some x \<Longrightarrow> x \<in> set xs \<and> P x"
  by (induction xs) (auto split: if_splits)

lemma updatePolicyWithWAF_name:
  "RuleName (updatePolicyWithWAF ep rec res store a) = RuleName (store a)"
  by (auto simp: updatePolicyWithWAF_def split: option.splits dest: find_Some_D)

lemma updatePolicyWithWAF_count_le:
  "wafActionCount (updatePolicyWithWAF ep rec res store a) \<le>
     wafActionCount (store a) + (if a \<in> set (Rules ep) \<and> RuleName (store a) = rec then 1 else 0)"
  by (auto simp: updatePolicyWithWAF_def wafActionCount_append_enable
           split: option.splits dest: find_Some_D)

lemma secureCase_name:
  "RuleName (wafRules (secureCase epOpt rec res l) a) = RuleName (wafRules l a)"
  by (simp add: secureCase_def updatePolicyWithWAF_name split: option.splits)

lemma insecureCase_name:
  "RuleName (wafRules (insecureCase epOpt rec res l) a) = RuleName (wafRules l a)"
  by (simp add: insecureCase_def updatePolicyWithWAF_name split: option.splits)

lemma secureCase_count_le:
  "wafActionCount (wafRules (secureCase epOpt rec res l) a) \<le>
     wafActionCount (wafRules l a)
       + (if a \<in> set (rulesOf epOpt) \<and> RuleName (wafRules l a) = rec then 1 else 0)"
proof (cases epOpt)
  case None
  then show ?thesis by (simp add: secureCase_def)
next
  case (Some ep)
  with updatePolicyWithWAF_count_le [of ep rec res "wafRules l" a] show ?thesis
    by (simp add: secureCase_def rulesOf_def)
qed

lemma insecureCase_count_le:
  "wafActionCount (wafRules (insecureCase epOpt rec res l) a) \<le>
     wafActionCount (wafRules l a)
       + (if a \<in> set (rulesOf epOpt) \<and> RuleName (wafRules l a) = rec then 1 else 0)"
proof (cases epOpt)
  case None
  then show ?thesis by (simp add: insecureCase_def)
next
  case (Some ep)
  with updatePolicyWithWAF_count_le [of ep rec res "wafRules l" a] show ?thesis
    by (simp add: insecureCase_def rulesOf_def)
qed

lemma f5ResourceStep_name:
  "RuleName (wafRules (f5ResourceStep sEP iEP e l) a) = RuleName (wafRules l a)"
  by (cases e)
     (simp add: f5ResourceStep_def secureCase_name insecureCase_name split: VirtualType.splits)

lemma f5ResourceStep_count_le:
  assumes "set (rulesOf sEP) \<inter> set (rulesOf iEP) = {}"
  shows "wafActionCount (wafRules (f5ResourceStep sEP iEP e l) a) \<le>
     wafActionCount (wafRules l a) + (if RuleName (wafRules l a) = fst e then 1 else 0)"
proof (cases e)
  case (Pair rec res)
  show ?thesis
  proof (cases "Virtual_res res")
    case HTTP
    then show ?thesis
      using insecureCase_count_le [of iEP rec res l a] Pair
      by (simp add: f5ResourceStep_def split: if_splits)
  next
    case HTTPS
    then show ?thesis
      using secureCase_count_le [of sEP rec res l a] Pair
      by (simp add: f5ResourceStep_def split: if_splits)
  next
    case HTTPANDS
    have not_both: "\<not> (a \<in> set (rulesOf sEP) \<and> a \<in> set (rulesOf iEP))"
      using assms by blast
    show ?thesis
      using secureCase_count_le [of sEP rec res l a]
        insecureCase_count_le [of iEP rec res "secureCase sEP rec res l" a]
        not_both Pair HTTPANDS
      by (simp add: f5ResourceStep_def secureCase_name split: if_splits)
  next
    case (VirtualOther v)
    then show ?thesis using Pair by (simp add: f5ResourceStep_def)
  qed
qed

lemma f5Resource_fold_name:
  "RuleName (wafRules (fold (f5ResourceStep sEP iEP) es l) a) = RuleName (wafRules l a)"
  by (induction es arbitrary: l) (simp_all add: f5ResourceStep_name)

lemma f5Resource_fold_count_le:
  assumes "set (rulesOf sEP) \<inter> set (rulesOf iEP) = {}"
  shows "wafActionCount (wafRules (fold (f5ResourceStep sEP iEP) es l) a) \<le>
     wafActionCount (wafRules l a) + count_list (map fst es) (RuleName (wafRules l a))"
proof (induction es arbitrary: l)
  case Nil
  then show ?case by simp
next
  case (Cons e es)
  from f5ResourceStep_count_le [OF assms, of e l a] Cons.IH [of "f5ResourceStep sEP iEP e l"]
  show ?case by (simp add: f5ResourceStep_name split: if_splits)
qed

lemma f5Group_fold_count_le:
  assumes "set (rulesOf sEP) \<inter> set (rulesOf iEP) = {}"
  shows "wafActionCount (wafRules (fold (f5GroupStep sEP iEP) gs l) a) \<le>
     wafActionCount (wafRules l a)
       + count_list (map fst (concat (map snd gs))) (RuleName (wafRules l a))"
proof (induction gs arbitrary: l)
  case Nil
  then show ?case by simp
next
  case (Cons g gs)
  obtain n es where g: "g = (n, es)" by (cases g)
  from f5Resource_fold_count_le [OF assms, of es l a]
    Cons.IH [of "fold (f5ResourceStep sEP iEP) es l"]
  show ?case by (simp add: g f5GroupStep_def f5Resource_fold_name)
qed

lemma distinct_count_list_le1: "distinct xs \<Longrightarrow> count_list xs x \<le> 1"
  by (induction xs) auto

lemma f5ResourceStep_flags:
  "(isSecureWAF (f5ResourceStep sEP iEP e l) \<longrightarrow> isSecureWAF l \<or> sEP \<noteq> None)
   \<and> (isInsecureWAF (f5ResourceStep sEP iEP e l) \<longrightarrow> isInsecureWAF l \<or> iEP \<noteq> None)"
  by (cases e)
     (auto simp: f5ResourceStep_def secureCase_def insecureCase_def
           split: VirtualType.splits option.splits)

lemma f5Resource_fold_flags:
  "(isSecureWAF (fold (f5ResourceStep sEP iEP) es l) \<longrightarrow> isSecureWAF l \<or> sEP \<noteq> None)
   \<and> (isInsecureWAF (fold (f5ResourceStep sEP iEP) es l) \<longrightarrow> isInsecureWAF l \<or> iEP \<noteq> None)"
proof (induction es arbitrary: l)
  case Nil
  then show ?case by simp
next
  case (Cons e es)
  from Cons.IH [of "f5ResourceStep sEP iEP e l"] f5ResourceStep_flags [of sEP iEP e l]
  show ?case by auto
qed

lemma f5Group_fold_flags:
  "(isSecureWAF (fold (f5GroupStep sEP iEP) gs l) \<longrightarrow> isSecureWAF l \<or> sEP \<noteq> None)
   \<and> (isInsecureWAF (fold (f5GroupStep sEP iEP) gs l) \<longrightarrow> isInsecureWAF l \<or> iEP \<noteq> None)"
proof (induction gs arbitrary: l)
  case Nil
  then show ?case by simp
next
  case (Cons g gs)
  obtain n es where g: "g = (n, es)" by (cases g)
  from Cons.IH [of "fold (f5ResourceStep sEP iEP) es l"] f5Resource_fold_flags [of sEP iEP es l]
  show ?case by (auto simp: g f5GroupStep_def)
qed

lemma touched_secure_exists:
  "isSecureWAF (updateRulesWithWAF am st) \<Longrightarrow>
   \<exists>ep. endpointPolicyAt (sharedApp st) ''openshift_secure_routes'' = Some ep"
  using f5Group_fold_flags
    [of "endpointPolicyAt (sharedApp st) ''openshift_secure_routes''"
        "endpointPolicyAt (sharedApp st) ''openshift_insecure_routes''" "IntF5Res am"
        "\<lparr>isSecureWAF = False, isInsecureWAF = False, wafRules = rules st\<rparr>"]
  by (auto simp: updateRulesWithWAF_def Let_def)

lemma touched_insecure_exists:
  "isInsecureWAF (updateRulesWithWAF am st) \<Longrightarrow>
   \<exists>ep. endpointPolicyAt (sharedApp st) ''openshift_insecure_routes'' = Some ep"
  using f5Group_fold_flags
    [of "endpointPolicyAt (sharedApp st) ''openshift_secure_routes''"
        "endpointPolicyAt (sharedApp st) ''openshift_insecure_routes''" "IntF5Res am"
        "\<lparr>isSecureWAF = False, isInsecureWAF = False, wafRules = rules st\<rparr>"]
  by (auto simp: updateRulesWithWAF_def Let_def)

lemma processF5_unfold:
  "processF5ResourcesForAS3 am st =
     (if isInsecureWAF (updateRulesWithWAF am st)
      then appendWAFDisableRule ''openshift_insecure_routes'' (nextRef st) (wafSecureDone am st)
      else wafSecureDone am st)"
  by (simp add: processF5ResourcesForAS3_def wafSecureDone_def wafAllocated_def Let_def)

lemma wafSecureDone_secure:
  "endpointPolicyAt (sharedApp (wafSecureDone am st)) ''openshift_secure_routes'' =
     (if isSecureWAF (updateRulesWithWAF am st)
      then map_option (\<lambda>ep. ep\<lparr>Rules := Rules ep @ [nextRef st]\<rparr>)
             (endpointPolicyAt (sharedApp st) ''openshift_secure_routes'')
      else endpointPolicyAt (sharedApp st) ''openshift_secure_routes'')"
  by (simp add: wafSecureDone_def appendWAFDisableRule_policy wafAllocated_def)

lemma wafSecureDone_insecure:
  "endpointPolicyAt (sharedApp (wafSecureDone am st)) ''openshift_insecure_routes'' =
     endpointPolicyAt (sharedApp st) ''openshift_insecure_routes''"
  by (simp add: wafSecureDone_def endpointPolicyAt_def appendWAFDisableRule_other wafAllocated_def)

lemma processF5_secure_policy:
  "endpointPolicyAt (sharedApp (processF5ResourcesForAS3 am st)) ''openshift_secure_routes'' =
     (if isSecureWAF (updateRulesWithWAF am st)
      then map_option (\<lambda>ep. ep\<lparr>Rules := Rules ep @ [nextRef st]\<rparr>)
             (endpointPolicyAt (sharedApp st) ''openshift_secure_routes'')
      else endpointPolicyAt (sharedApp st) ''openshift_secure_routes'')"
  by (simp add: processF5_unfold endpointPolicyAt_def appendWAFDisableRule_other
      wafSecureDone_secure [unfolded endpointPolicyAt_def])

lemma processF5_insecure_policy:
  "endpointPolicyAt (sharedApp (processF5ResourcesForAS3 am st)) ''openshift_insecure_routes'' =
     (if isInsecureWAF (updateRulesWithWAF am st)
      then map_option (\<lambda>ep. ep\<lparr>Rules := Rules ep @ [nextRef st]\<rparr>)
             (endpointPolicyAt (sharedApp st) ''openshift_insecure_routes'')
      else endpointPolicyAt (sharedApp st) ''openshift_insecure_routes'')"
  by (simp add: processF5_unfold appendWAFDisableRule_policy wafSecureDone_insecure)

lemma wafAllocated_rules:
  "rules (wafAllocated am st) a =
     (if a = nextRef st then wafDisableRule else wafRules (updateRulesWithWAF am st) a)"
  by (simp add: wafAllocated_def)

lemma appendWAFDisableRule_keeps_waf_rule:
  "0 < wafActionCount (rules st a) \<Longrightarrow> rules (appendWAFDisableRule name ref st) a = rules st a"
  by (simp add: appendWAFDisableRule_rules addWAFDisableAction_at isWAFRule_count
      split: option.splits)

lemma appendWAFDisableRule_count_ge:
  "wafActionCount (rules st a) \<le> wafActionCount (rules (appendWAFDisableRule name ref st) a)"
  by (simp add: appendWAFDisableRule_rules addWAFDisableAction_count split: option.splits)

lemma appendWAFDisableRule_count_le:
  "wafActionCount (rules (appendWAFDisableRule name ref st) a) \<le> max 1 (wafActionCount (rules st a))"
  by (simp add: appendWAFDisableRule_rules addWAFDisableAction_count split: option.splits)

lemma appendWAFDisableRule_covers:
  "endpointPolicyAt (sharedApp st) name = Some ep \<Longrightarrow> a \<in> set (Rules ep @ [ref]) \<Longrightarrow>
   1 \<le> wafActionCount (rules (appendWAFDisableRule name ref st) a)"
  by (auto simp: appendWAFDisableRule_rules addWAFDisableAction_count)

lemma wafSecureDone_count_le:
  "wafActionCount (rules (wafSecureDone am st) a) \<le> max 1 (wafActionCount (rules (wafAllocated am st) a))"
  using appendWAFDisableRule_count_le
    [of "''openshift_secure_routes''" "nextRef st" "wafAllocated am st" a]
  by (simp add: wafSecureDone_def)

lemma processF5_count_ge:
  "wafActionCount (rules (wafSecureDone am st) a) \<le> wafActionCount (rules (processF5ResourcesForAS3 am st) a)"
  by (simp add: processF5_unfold appendWAFDisableRule_count_ge)

lemma processF5_count_le:
  "wafActionCount (rules (processF5ResourcesForAS3 am st) a)
     \<le> max 1 (wafActionCount (rules (wafAllocated am st) a))"
proof -
  have "wafActionCount (rules (processF5ResourcesForAS3 am st) a)
          \<le> max 1 (wafActionCount (rules (wafSecureDone am st) a))"
    using appendWAFDisableRule_count_le
      [of "''openshift_insecure_routes''" "nextRef st" "wafSecureDone am st" a]
    by (simp add: processF5_unfold)
  with wafSecureDone_count_le [of am st a] show ?thesis by simp
qed

lemma processF5_secure_covers:
  assumes "isSecureWAF (updateRulesWithWAF am st)"
    and "endpointPolicyAt (sharedApp st) ''openshift_secure_routes'' = Some ep"
    and "a \<in> set (Rules ep @ [nextRef st])"
  shows "1 \<le> wafActionCount (rules (processF5ResourcesForAS3 am st) a)"
proof -
  have "endpointPolicyAt (sharedApp (wafAllocated am st)) ''openshift_secure_routes'' = Some ep"
    using assms(2) by (simp add: wafAllocated_def)
  from appendWAFDisableRule_covers [OF this assms(3)] assms(1)
  have "1 \<le> wafActionCount (rules (wafSecureDone am st) a)"
    by (simp add: wafSecureDone_def)
  with processF5_count_ge [of am st a] show ?thesis by simp
qed

lemma processF5_insecure_covers:
  assumes "isInsecureWAF (updateRulesWithWAF am st)"
    and "endpointPolicyAt (sharedApp st) ''openshift_insecure_routes'' = Some ep"
    and "a \<in> set (Rules ep @ [nextRef st])"
  shows "1 \<le> wafActionCount (rules (processF5ResourcesForAS3 am st) a)"
proof -
  have "endpointPolicyAt (sharedApp (wafSecureDone am st)) ''openshift_insecure_routes'' = Some ep"
    using assms(2) by (simp add: wafSecureDone_insecure)
  from appendWAFDisableRule_covers [OF this assms(3)] assms(1)
  show ?thesis by (simp add: processF5_unfold)
qed

lemma processF5_trailing_rule:
  "rules (processF5ResourcesForAS3 am st) (nextRef st) = wafDisableRule"
proof -
  have alloc: "rules (wafAllocated am st) (nextRef st) = wafDisableRule"
    by (simp add: wafAllocated_rules)
  have sec: "rules (wafSecureDone am st) (nextRef st) = wafDisableRule"
    by (simp add: wafSecureDone_def alloc appendWAFDisableRule_keeps_waf_rule
        wafActionCount_wafDisableRule)
  show ?thesis
    by (simp add: processF5_unfold sec appendWAFDisableRule_keeps_waf_rule
        wafActionCount_wafDisableRule)
qed

lemma updateRulesWithWAF_count_le:
  assumes "set (rulesOf (endpointPolicyAt (sharedApp st) ''openshift_secure_routes''))
             \<inter> set (rulesOf (endpointPolicyAt (sharedApp st) ''openshift_insecure_routes'')) = {}"
    and "distinct (map fst (concat (map snd (IntF5Res am))))"
  shows "wafActionCount (wafRules (updateRulesWithWAF am st) a) \<le> Suc (wafActionCount (rules st a))"
  using f5Group_fold_count_le [OF assms(1), of "IntF5Res am"
      "\<lparr>isSecureWAF = False, isInsecureWAF = False, wafRules = rules st\<rparr>" a]
    distinct_count_list_le1 [OF assms(2), of "RuleName (rules st a)"]
  by (simp add: updateRulesWithWAF_def Let_def)

lemma processF5_count_exact:
  assumes "set (rulesOf (endpointPolicyAt (sharedApp st) ''openshift_secure_routes''))
             \<inter> set (rulesOf (endpointPolicyAt (sharedApp st) ''openshift_insecure_routes'')) = {}"
    and "distinct (map fst (concat (map snd (IntF5Res am))))"
    and "a \<noteq> nextRef st \<longrightarrow> wafActionCount (rules st a) = 0"
  shows "wafActionCount (rules (processF5ResourcesForAS3 am st) a) \<le> 1"
proof -
  have "wafActionCount (rules (wafAllocated am st) a) \<le> 1"
    using updateRulesWithWAF_count_le [OF assms(1,2), of a] assms(3)
    by (auto simp: wafAllocated_rules wafActionCount_wafDisableRule)
  with processF5_count_le [of am st a] show ?thesis by simp
qed

lemma wafSecureDone_rules:
  "rules (wafSecureDone am st) =
     (case (if isSecureWAF (updateRulesWithWAF am st)
            then endpointPolicyAt (sharedApp st) ''openshift_secure_routes'' else None) of
        None \<Rightarrow> rules (wafAllocated am st)
      | Some ep \<Rightarrow>
          addWAFDisableAction (ep\<lparr>Rules := Rules ep @ [nextRef st]\<rparr>) (rules (wafAllocated am st)))"
proof -
  have "sharedApp (wafAllocated am st) = sharedApp st"
    by (simp add: wafAllocated_def)
  then show ?thesis
    by (simp add: wafSecureDone_def appendWAFDisableRule_rules)
qed

lemma processF5_rules:
  "rules (processF5ResourcesForAS3 am st) =
     (case (if isInsecureWAF (updateRulesWithWAF am st)
            then endpointPolicyAt (sharedApp st) ''openshift_insecure_routes'' else None) of
        None \<Rightarrow> rules (wafSecureDone am st)
      | Some ep \<Rightarrow>
          addWAFDisableAction (ep\<lparr>Rules := Rules ep @ [nextRef st]\<rparr>) (rules (wafSecureDone am st)))"
  by (simp add: processF5_unfold appendWAFDisableRule_rules wafSecureDone_insecure)

lemma processF5_diagnostics:
  "diagnostics (processF5ResourcesForAS3 am st) = diagnostics st"
  by (simp add: processF5_unfold wafSecureDone_def wafAllocated_def
      appendWAFDisableRule_diagnostics)

lemma touched_policy:
  assumes "touched am st name"
  shows "\<exists>ep. endpointPolicyAt (sharedApp st) name = Some ep"
    and "endpointPolicyAt (sharedApp (processF5ResourcesForAS3 am st)) name =
           map_option (\<lambda>ep. ep\<lparr>Rules := Rules ep @ [nextRef st]\<rparr>)
             (endpointPolicyAt (sharedApp st) name)"
  using assms touched_secure_exists [of am st] touched_insecure_exists [of am st]
  by (auto simp: touched_def processF5_secure_policy processF5_insecure_policy)

lemma touched_covers:
  assumes "touched am st name" and "endpointPolicyAt (sharedApp st) name = Some ep"
    and "a \<in> set (Rules ep @ [nextRef st])"
  shows "1 \<le> wafActionCount (rules (processF5ResourcesForAS3 am st) a)"
  using assms processF5_secure_covers [of am st ep a] processF5_insecure_covers [of am st ep a]
  by (auto simp: touched_def)

lemma f5ResourceStep_orFlags:
  "f5ResourceStep sEP iEP e (orFlags s i l) = orFlags s i (f5ResourceStep sEP iEP e l)"
  by (cases e)
     (simp add: f5ResourceStep_def secureCase_def insecureCase_def orFlags_def
           split: VirtualType.splits option.splits)

lemma f5Resource_fold_orFlags:
  "fold (f5ResourceStep sEP iEP) es (orFlags s i l) = orFlags s i (fold (f5ResourceStep sEP iEP) es l)"
  by (induction es arbitrary: l) (simp_all add: f5ResourceStep_orFlags)

lemma f5Group_fold_orFlags:
  "fold (f5GroupStep sEP iEP) gs (orFlags s i l) = orFlags s i (fold (f5GroupStep sEP iEP) gs l)"
  by (induction gs arbitrary: l)
     (simp_all add: f5GroupStep_def f5Resource_fold_orFlags split: prod.splits)

lemma f5Group_fold_name:
  "RuleName (wafRules (fold (f5GroupStep sEP iEP) gs l) a) = RuleName (wafRules l a)"
  by (induction gs arbitrary: l) (simp_all add: f5GroupStep_def f5Resource_fold_name split: prod.splits)

lemma updatePolicyWithWAF_absent:
  assumes "\<forall>r \<in> set (Rules ep). RuleName (store r) \<noteq> rec"
  shows "updatePolicyWithWAF ep rec res store = store"
proof -
  from assms have "find (\<lambda>rule. RuleName (store rule) = rec) (Rules ep) = None"
    by (simp add: find_None_iff)
  then show ?thesis
    by (simp add: updatePolicyWithWAF_def)
qed

lemma f5ResourceStep_absent:
  assumes "Virtual_res res = HTTPS \<or> Virtual_res res = HTTPANDS \<longrightarrow>
             (\<forall>r \<in> set (rulesOf sEP). RuleName (wafRules l r) \<noteq> rec)"
    and "Virtual_res res = HTTP \<or> Virtual_res res = HTTPANDS \<longrightarrow>
             (\<forall>r \<in> set (rulesOf iEP). RuleName (wafRules l r) \<noteq> rec)"
  shows "f5ResourceStep sEP iEP (rec, res) l =
           orFlags ((Virtual_res res = HTTPS \<or> Virtual_res res = HTTPANDS) \<and> sEP \<noteq> None)
                   ((Virtual_res res = HTTP \<or> Virtual_res res = HTTPANDS) \<and> iEP \<noteq> None) l"
  using assms
  by (cases "Virtual_res res"; cases sEP; cases iEP)
     (simp_all add: f5ResourceStep_def secureCase_def insecureCase_def orFlags_def rulesOf_def
        updatePolicyWithWAF_absent)


lemma updateRulesWithWAF_absent_record:
  assumes feed: "IntF5Res am = gs @ (g, rs @ (rec, res) # rs') # gs'"
    and absentS: "Virtual_res res = HTTPS \<or> Virtual_res res = HTTPANDS \<longrightarrow>
       (\<forall>r \<in> set (rulesOf (endpointPolicyAt (sharedApp st) ''openshift_secure_routes'')).
          RuleName (rules st r) \<noteq> rec)"
    and absentI: "Virtual_res res = HTTP \<or> Virtual_res res = HTTPANDS \<longrightarrow>
       (\<forall>r \<in> set (rulesOf (endpointPolicyAt (sharedApp st) ''openshift_insecure_routes'')).
          RuleName (rules st r) \<noteq> rec)"
  shows "updateRulesWithWAF am st =
     orFlags ((Virtual_res res = HTTPS \<or> Virtual_res res = HTTPANDS)
                \<and> endpointPolicyAt (sharedApp st) ''openshift_secure_routes'' \<noteq> None)
             ((Virtual_res res = HTTP \<or> Virtual_res res = HTTPANDS)
                \<and> endpointPolicyAt (sharedApp st) ''openshift_insecure_routes'' \<noteq> None)
       (updateRulesWithWAF (am\<lparr>IntF5Res := gs @ (g, rs @ rs') # gs'\<rparr>) st)"
proof -
  define sEP where "sEP = endpointPolicyAt (sharedApp st) ''openshift_secure_routes''"
  define iEP where "iEP = endpointPolicyAt (sharedApp st) ''openshift_insecure_routes''"
  define l0 where "l0 = \<lparr>isSecureWAF = False, isInsecureWAF = False, wafRules = rules st\<rparr>"
  define l2 where "l2 = fold (f5ResourceStep sEP iEP) rs (fold (f5GroupStep sEP iEP) gs l0)"
  have names: "RuleName (wafRules l2 a) = RuleName (rules st a)" for a
    by (simp add: l2_def l0_def f5Resource_fold_name f5Group_fold_name)
  have step: "f5ResourceStep sEP iEP (rec, res) l2 =
      orFlags ((Virtual_res res = HTTPS \<or> Virtual_res res = HTTPANDS) \<and> sEP \<noteq> None)
              ((Virtual_res res = HTTP \<or> Virtual_res res = HTTPANDS) \<and> iEP \<noteq> None) l2"
    using absentS absentI
    by (intro f5ResourceStep_absent) (simp_all add: names sEP_def iEP_def)
  show ?thesis
    unfolding updateRulesWithWAF_def Let_def feed
    by (simp add: f5GroupStep_def step f5Resource_fold_orFlags f5Group_fold_orFlags
        sEP_def [symmetric] iEP_def [symmetric] l0_def [symmetric] l2_def [symmetric])
qed

lemma updatePolicyWithWAF_actions_grow:
  "set (Actions (store a)) \<subseteq> set (Actions (updatePolicyWithWAF ep rec res store a))"
  by (auto simp: updatePolicyWithWAF_def split: option.splits)

lemma updatePolicyWithWAF_hit:
  "find (\<lambda>a. RuleName (store a) = rec) (Rules ep) = Some r \<Longrightarrow>
   wafEnableAction \<in> set (Actions (updatePolicyWithWAF ep rec res store r))"
  by (simp add: updatePolicyWithWAF_def)

lemma f5ResourceStep_actions_grow:
  "set (Actions (wafRules l a)) \<subseteq> set (Actions (wafRules (f5ResourceStep sEP iEP e l) a))"
proof -
  have s: "set (Actions (wafRules k a)) \<subseteq> set (Actions (wafRules (secureCase sEP rec res k) a))"
    for k rec res
    by (cases sEP) (simp_all add: secureCase_def updatePolicyWithWAF_actions_grow)
  have i: "set (Actions (wafRules k a)) \<subseteq> set (Actions (wafRules (insecureCase iEP rec res k) a))"
    for k rec res
    by (cases iEP) (simp_all add: insecureCase_def updatePolicyWithWAF_actions_grow)
  obtain rec res where e: "e = (rec, res)" by (cases e)
  show ?thesis
  proof (cases "Virtual_res res")
    case HTTPANDS
    from s [of l rec res] i [of "secureCase sEP rec res l" rec res] show ?thesis
      by (auto simp: e f5ResourceStep_def HTTPANDS)
  qed (simp_all add: e f5ResourceStep_def s i)
qed

lemma f5ResourceStep_flags_keep:
  "(isSecureWAF l \<longrightarrow> isSecureWAF (f5ResourceStep sEP iEP e l))
   \<and> (isInsecureWAF l \<longrightarrow> isInsecureWAF (f5ResourceStep sEP iEP e l))"
  by (cases e)
     (simp add: f5ResourceStep_def secureCase_def insecureCase_def
           split: VirtualType.splits option.splits)

lemma f5Resource_fold_actions_grow:
  "set (Actions (wafRules l a)) \<subseteq> set (Actions (wafRules (fold (f5ResourceStep sEP iEP) es l) a))"
proof (induction es arbitrary: l)
  case Nil
  then show ?case by simp
next
  case (Cons e es)
  from f5ResourceStep_actions_grow [of l a sEP iEP e] Cons.IH [of "f5ResourceStep sEP iEP e l"]
  show ?case by auto
qed

lemma f5Resource_fold_flags_keep:
  "(isSecureWAF l \<longrightarrow> isSecureWAF (fold (f5ResourceStep sEP iEP) es l))
   \<and> (isInsecureWAF l \<longrightarrow> isInsecureWAF (fold (f5ResourceStep sEP iEP) es l))"
proof (induction es arbitrary: l)
  case Nil
  then show ?case by simp
next
  case (Cons e es)
  from f5ResourceStep_flags_keep [of l sEP iEP e] Cons.IH [of "f5ResourceStep sEP iEP e l"]
  show ?case by simp
qed

lemma f5Group_fold_actions_grow:
  "set (Actions (wafRules l a)) \<subseteq> set (Actions (wafRules (fold (f5GroupStep sEP iEP) gs l) a))"
proof (induction gs arbitrary: l)
  case Nil
  then show ?case by simp
next
  case (Cons g gs)
  obtain n es where g: "g = (n, es)" by (cases g)
  from f5Resource_fold_actions_grow [of l a sEP iEP es]
    Cons.IH [of "fold (f5ResourceStep sEP iEP) es l"]
  show ?case by (auto simp: g f5GroupStep_def)
qed

lemma f5Group_fold_flags_keep:
  "(isSecureWAF l \<longrightarrow> isSecureWAF (fold (f5GroupStep sEP iEP) gs l))
   \<and> (isInsecureWAF l \<longrightarrow> isInsecureWAF (fold (f5GroupStep sEP iEP) gs l))"
proof (induction gs arbitrary: l)
  case Nil
  then show ?case by simp
next
  case (Cons g gs)
  obtain n es where g: "g = (n, es)" by (cases g)
  from f5Resource_fold_flags_keep [of l sEP iEP es]
    Cons.IH [of "fold (f5ResourceStep sEP iEP) es l"]
  show ?case by (simp add: g f5GroupStep_def)
qed


lemma f5ResourceStep_hit_secure:
  assumes "Virtual_res res = HTTPS \<or> Virtual_res res = HTTPANDS"
    and "find (\<lambda>a. RuleName (wafRules l a) = rec) (Rules ep) = Some r"
  shows "isSecureWAF (f5ResourceStep (Some ep) iEP (rec, res) l)
    \<and> wafEnableAction \<in> set (Actions (wafRules (f5ResourceStep (Some ep) iEP (rec, res) l) r))"
proof -
  have sec: "isSecureWAF (secureCase (Some ep) rec res l)"
      "wafEnableAction \<in> set (Actions (wafRules (secureCase (Some ep) rec res l) r))"
    using assms(2) by (simp_all add: secureCase_def updatePolicyWithWAF_hit)
  have ins: "isSecureWAF (insecureCase iEP rec res k) = isSecureWAF k"
      "set (Actions (wafRules k r)) \<subseteq> set (Actions (wafRules (insecureCase iEP rec res k) r))" for k
    by (cases iEP; simp add: insecureCase_def updatePolicyWithWAF_actions_grow)+
  from assms(1) sec ins [of "secureCase (Some ep) rec res l"] show ?thesis
    by (auto simp: f5ResourceStep_def)
qed

lemma f5ResourceStep_hit_insecure:
  assumes "Virtual_res res = HTTP \<or> Virtual_res res = HTTPANDS"
    and "find (\<lambda>a. RuleName (wafRules l a) = rec) (Rules ep) = Some r"
  shows "isInsecureWAF (f5ResourceStep sEP (Some ep) (rec, res) l)
    \<and> wafEnableAction \<in> set (Actions (wafRules (f5ResourceStep sEP (Some ep) (rec, res) l) r))"
proof -
  have ins: "isInsecureWAF (insecureCase (Some ep) rec res k)"
      "wafEnableAction \<in> set (Actions (wafRules (insecureCase (Some ep) rec res k) r))"
    if "find (\<lambda>a. RuleName (wafRules k a) = rec) (Rules ep) = Some r" for k
    using that by (simp_all add: insecureCase_def updatePolicyWithWAF_hit)
  have "find (\<lambda>a. RuleName (wafRules (secureCase sEP rec res l) a) = rec) (Rules ep) = Some r"
    using assms(2) by (simp add: secureCase_name)
  from assms(1) ins [OF assms(2)] ins [OF this] show ?thesis
    by (auto simp: f5ResourceStep_def)
qed

lemma f5Resource_fold_hit_secure:
  assumes "(rec, res) \<in> set es" and "Virtual_res res = HTTPS \<or> Virtual_res res = HTTPANDS"
    and "find (\<lambda>a. RuleName (wafRules l a) = rec) (Rules ep) = Some r"
  shows "isSecureWAF (fold (f5ResourceStep (Some ep) iEP) es l)
    \<and> wafEnableAction \<in> set (Actions (wafRules (fold (f5ResourceStep (Some ep) iEP) es l) r))"
  using assms(1,3)
proof (induction es arbitrary: l)
  case Nil
  then show ?case by simp
next
  case (Cons e es)
  show ?case
  proof (cases "e = (rec, res)")
    case True
    from f5ResourceStep_hit_secure [OF assms(2) Cons.prems(2), of iEP]
      f5Resource_fold_flags_keep [of "f5ResourceStep (Some ep) iEP (rec, res) l" "Some ep" iEP es]
      f5Resource_fold_actions_grow [of "f5ResourceStep (Some ep) iEP (rec, res) l" r "Some ep" iEP es]
    show ?thesis by (auto simp: True)
  next
    case False
    with Cons.prems(1) have mem: "(rec, res) \<in> set es" by simp
    have "find (\<lambda>a. RuleName (wafRules (f5ResourceStep (Some ep) iEP e l) a) = rec) (Rules ep) = Some r"
      using Cons.prems(2) by (simp add: f5ResourceStep_name)
    from Cons.IH [OF mem this] show ?thesis by simp
  qed
qed

lemma f5Resource_fold_hit_insecure:
  assumes "(rec, res) \<in> set es" and "Virtual_res res = HTTP \<or> Virtual_res res = HTTPANDS"
    and "find (\<lambda>a. RuleName (wafRules l a) = rec) (Rules ep) = Some r"
  shows "isInsecureWAF (fold (f5ResourceStep sEP (Some ep)) es l)
    \<and> wafEnableAction \<in> set (Actions (wafRules (fold (f5ResourceStep sEP (Some ep)) es l) r))"
  using assms(1,3)
proof (induction es arbitrary: l)
  case Nil
  then show ?case by simp
next
  case (Cons e es)
  show ?case
  proof (cases "e = (rec, res)")
    case True
    from f5ResourceStep_hit_insecure [OF assms(2) Cons.prems(2), of sEP]
      f5Resource_fold_flags_keep [of "f5ResourceStep sEP (Some ep) (rec, res) l" sEP "Some ep" es]
      f5Resource_fold_actions_grow [of "f5ResourceStep sEP (Some ep) (rec, res) l" r sEP "Some ep" es]
    show ?thesis by (auto simp: True)
  next
    case False
    with Cons.prems(1) have mem: "(rec, res) \<in> set es" by simp
    have "find (\<lambda>a. RuleName (wafRules (f5ResourceStep sEP (Some ep) e l) a) = rec) (Rules ep) = Some r"
      using Cons.prems(2) by (simp add: f5ResourceStep_name)
    from Cons.IH [OF mem this] show ?thesis by simp
  qed
qed

lemma f5GroupStep_pair:
  "f5GroupStep sEP iEP (n, es) l = fold (f5ResourceStep sEP iEP) es l"
  by (simp add: f5GroupStep_def)

lemma f5Group_fold_hit_secure:
  assumes "(g, rs) \<in> set gs" and "(rec, res) \<in> set rs"
    and "Virtual_res res = HTTPS \<or> Virtual_res res = HTTPANDS"
    and "find (\<lambda>a. RuleName (wafRules l a) = rec) (Rules ep) = Some r"
  shows "isSecureWAF (fold (f5GroupStep (Some ep) iEP) gs l)
    \<and> wafEnableAction \<in> set (Actions (wafRules (fold (f5GroupStep (Some ep) iEP) gs l) r))"
  using assms(1,4)
proof (induction gs arbitrary: l)
  case Nil
  then show ?case by simp
next
  case (Cons h gs)
  obtain n es where h: "h = (n, es)" by (cases h)
  show ?case
  proof (cases "h = (g, rs)")
    case True
    with h have es: "es = rs" by simp
    from f5Resource_fold_hit_secure [OF assms(2,3) Cons.prems(2), of iEP]
      f5Group_fold_flags_keep [of "fold (f5ResourceStep (Some ep) iEP) rs l" "Some ep" iEP gs]
      f5Group_fold_actions_grow [of "fold (f5ResourceStep (Some ep) iEP) rs l" r "Some ep" iEP gs]
    show ?thesis by (auto simp: h es f5GroupStep_pair)
  next
    case False
    with Cons.prems(1) have mem: "(g, rs) \<in> set gs" by simp
    have "find (\<lambda>a. RuleName (wafRules (fold (f5ResourceStep (Some ep) iEP) es l) a) = rec) (Rules ep)
            = Some r"
      using Cons.prems(2) by (simp add: f5Resource_fold_name)
    from Cons.IH [OF mem this] show ?thesis by (simp add: h f5GroupStep_pair)
  qed
qed

lemma f5Group_fold_hit_insecure:
  assumes "(g, rs) \<in> set gs" and "(rec, res) \<in> set rs"
    and "Virtual_res res = HTTP \<or> Virtual_res res = HTTPANDS"
    and "find (\<lambda>a. RuleName (wafRules l a) = rec) (Rules ep) = Some r"
  shows "isInsecureWAF (fold (f5GroupStep sEP (Some ep)) gs l)
    \<and> wafEnableAction \<in> set (Actions (wafRules (fold (f5GroupStep sEP (Some ep)) gs l) r))"
  using assms(1,4)
proof (induction gs arbitrary: l)
  case Nil
  then show ?case by simp
next
  case (Cons h gs)
  obtain n es where h: "h = (n, es)" by (cases h)
  show ?case
  proof (cases "h = (g, rs)")
    case True
    with h have es: "es = rs" by simp
    from f5Resource_fold_hit_insecure [OF assms(2,3) Cons.prems(2), of sEP]
      f5Group_fold_flags_keep [of "fold (f5ResourceStep sEP (Some ep)) rs l" sEP "Some ep" gs]
      f5Group_fold_actions_grow [of "fold (f5ResourceStep sEP (Some ep)) rs l" r sEP "Some ep" gs]
    show ?thesis by (auto simp: h es f5GroupStep_pair)
  next
    case False
    with Cons.prems(1) have mem: "(g, rs) \<in> set gs" by simp
    have "find (\<lambda>a. RuleName (wafRules (fold (f5ResourceStep sEP (Some ep)) es l) a) = rec) (Rules ep)
            = Some r"
      using Cons.prems(2) by (simp add: f5Resource_fold_name)
    from Cons.IH [OF mem this] show ?thesis by (simp add: h f5GroupStep_pair)
  qed
qed

lemma processF5_actions_grow:
  assumes "r \<noteq> nextRef st"
  shows "set (Actions (wafRules (updateRulesWithWAF am st) r))
           \<subseteq> set (Actions (rules (processF5ResourcesForAS3 am st) r))"
proof -
  have grow: "set (Actions (store r)) \<subseteq> set (Actions (addWAFDisableAction ep store r))" for ep store
    by (auto simp: addWAFDisableAction_at)
  have a: "rules (wafAllocated am st) r = wafRules (updateRulesWithWAF am st) r"
    using assms by (simp add: wafAllocated_rules)
  have b: "set (Actions (rules (wafAllocated am st) r)) \<subseteq> set (Actions (rules (wafSecureDone am st) r))"
    using grow by (simp add: wafSecureDone_rules split: option.splits)
  have c: "set (Actions (rules (wafSecureDone am st) r))
             \<subseteq> set (Actions (rules (processF5ResourcesForAS3 am st) r))"
    using grow by (simp add: processF5_rules split: option.splits)
  from a b c show ?thesis by auto
qed

lemma orFlags_id:
  assumes "s \<longrightarrow> isSecureWAF l" and "i \<longrightarrow> isInsecureWAF l"
  shows "orFlags s i l = l"
proof -
  from assms have "(isSecureWAF l \<or> s) = isSecureWAF l" "(isInsecureWAF l \<or> i) = isInsecureWAF l"
    by auto
  then show ?thesis
    by (simp add: orFlags_def)
qed

section \<open>Claims about the TLS attachment stage\<close>

text \<open>
  Claim C3, as stated: every frontend with at least one TLS association entry whose
  Service object exists ends with protocol HTTPS. It fails for an Ingress whose only
  TLS profile lies outside the partition Common: the entry is passed over and the
  Service keeps its protocol.
\<close>

theorem tls_foreign_partition_counterexample:
  "(''foreign'', exIngressForeign) \<in> set (RsMap exTLSManager)
   \<and> Profiles (Virtual exIngressForeign) \<noteq> []
   \<and> serviceAt (sharedApp exTLSPass) ''foreign''
   \<and> \<not> httpsServiceAt (sharedApp (processProfilesForAS3 exExt exTLSManager exTLSPass)) ''foreign''"
  by (simp add: exTLSManager_def exIngressForeign_def exTLSPass_def exExt_def exService_def
      exServiceCustom_def exIngress_def exOther_def exRoute_def exRouteProfs_def
      exIngressProfiles_def initDefault_def serviceAt_def httpsServiceAt_def
      processProfilesForAS3_def profilesStep_def processIngressTLSProfilesForAS3_def
      processRouteTLSProfilesForAS3_def ingressProfileStep_def routeProfileStep_def
      updateVirtualToHTTPS_def Let_def)

text \<open>
  Claim C3, amended: every frontend that has an entry its reader writes (a Route key of
  client or server context; an Ingress profile of the partition Common of client or
  server context) and whose Service object exists in the tree ends the stage with a
  Service of protocol HTTPS; and a Service that is HTTPS before the stage is HTTPS
  after it.
\<close>

theorem tls_stage_upgrades_to_https:
  "((svcName, cfg) \<in> set (RsMap am) \<and> eligibleTLSEntry cfg
      \<and> serviceAt (sharedApp st) (as3FormatedString ext svcName (ResourceType (MetaData cfg)))
    \<longrightarrow> httpsServiceAt (sharedApp (processProfilesForAS3 ext am st))
          (as3FormatedString ext svcName (ResourceType (MetaData cfg))))
   \<and> (httpsServiceAt (sharedApp st) k
    \<longrightarrow> httpsServiceAt (sharedApp (processProfilesForAS3 ext am st)) k)"
  unfolding processProfilesForAS3_def
  using profiles_fold_upgrade profiles_fold_https_keep by blast

theorem tls_stage_upgrades_to_https_witness:
  "(''ing'', exIngress) \<in> set (RsMap exTLSManager) \<and> eligibleTLSEntry exIngress
   \<and> serviceAt (sharedApp exTLSPass) ''ing''
   \<and> httpsServiceAt (sharedApp (processProfilesForAS3 exExt exTLSManager exTLSPass)) ''ing''
   \<and> (''route'', exRoute) \<in> set (RsMap exTLSManager) \<and> eligibleTLSEntry exRoute
   \<and> serviceAt (sharedApp exTLSPass) ''route''
   \<and> httpsServiceAt (sharedApp (processProfilesForAS3 exExt exTLSManager exTLSPass)) ''route''
   \<and> httpsServiceAt (sharedApp exTLSPass) ''cm''
   \<and> httpsServiceAt (sharedApp (processProfilesForAS3 exExt exTLSManager exTLSPass)) ''cm''"
proof -
  have ing: "(''ing'', exIngress) \<in> set (RsMap exTLSManager)"
    and route: "(''route'', exRoute) \<in> set (RsMap exTLSManager)"
    by (simp_all add: exTLSManager_def)
  have el_ing: "eligibleTLSEntry exIngress"
    by (simp add: eligibleTLSEntry_def exIngress_def exIngressProfiles_def)
  have el_route: "eligibleTLSEntry exRoute"
    by (simp add: eligibleTLSEntry_def exRoute_def exRouteProfs_def)
  have svc: "serviceAt (sharedApp exTLSPass) ''ing''" "serviceAt (sharedApp exTLSPass) ''route''"
    by (simp_all add: serviceAt_def exTLSPass_def)
  have cm: "httpsServiceAt (sharedApp exTLSPass) ''cm''"
    by (simp add: httpsServiceAt_def exTLSPass_def exServiceCustom_def)
  have fmt: "as3FormatedString exExt str t = str" for str t
    by (simp add: exExt_def)
  show ?thesis
    using tls_stage_upgrades_to_https [of "''ing''" exIngress exTLSManager exTLSPass exExt "''cm''"]
      tls_stage_upgrades_to_https [of "''route''" exRoute exTLSManager exTLSPass exExt "''cm''"]
      ing route el_ing el_route svc cm
    by (simp add: fmt)
qed

text \<open>
  Claim C9, as stated: with N client profiles of the partition Common the ServerTLS
  list has exactly N entries. It fails for N = 0, here with an empty profile list, on a
  Service that an earlier stage gave a ServerTLS pointer: the stage assigns the field
  only when it meets a client profile, so the pointer stays and the list has one entry.
\<close>

theorem ingress_serverTLS_counterexample:
  "Profiles \<lparr>Profiles = []\<rparr> = []
   \<and> ServerTLS exServiceCustom = [\<lparr>BigIP = ''/Common/custom''\<rparr>]
   \<and> length (ServerTLS (processIngressTLSProfilesForAS3 \<lparr>Profiles = []\<rparr> exServiceCustom)) = 1"
  by (simp add: processIngressTLSProfilesForAS3_def exServiceCustom_def)

text \<open>
  Claim C9, amended: when an Ingress frontend has N \<ge> 1 client profiles in the
  partition Common, the stage sets ServerTLS to exactly the N pointers of these
  profiles, in the order of the profile list, replacing what the Service held; when it
  has none, ServerTLS stays as it was. Profiles of other partitions contribute nothing.
\<close>

theorem ingress_serverTLS_entries:
  "ServerTLS (processIngressTLSProfilesForAS3 virtual svc) =
     (if filter (\<lambda>p. Partition p = ''Common'' \<and> Context p = CustomProfileClient) (Profiles virtual) = []
      then ServerTLS svc
      else map (\<lambda>p. \<lparr>BigIP = ''/'' @ Partition p @ ''/'' @ Name p\<rparr>)
             (filter (\<lambda>p. Partition p = ''Common'' \<and> Context p = CustomProfileClient)
                (Profiles virtual)))"
  by (simp add: processIngressTLSProfilesForAS3_def ingress_fold_ServerTLS)

theorem ingress_serverTLS_entries_witness:
  "ServerTLS (processIngressTLSProfilesForAS3 \<lparr>Profiles = exIngressProfiles\<rparr> exServiceCustom) =
     [\<lparr>BigIP = ''/Common/a''\<rparr>, \<lparr>BigIP = ''/Common/c''\<rparr>]
   \<and> ServerTLS (processIngressTLSProfilesForAS3
        \<lparr>Profiles = [\<lparr>Partition = ''tenant1'', Name = ''b'', Context = CustomProfileClient\<rparr>]\<rparr>
        exServiceCustom) = [\<lparr>BigIP = ''/Common/custom''\<rparr>]"
  using ingress_serverTLS_entries [of "\<lparr>Profiles = exIngressProfiles\<rparr>" exServiceCustom]
    ingress_serverTLS_entries
      [of "\<lparr>Profiles = [\<lparr>Partition = ''tenant1'', Name = ''b'', Context = CustomProfileClient\<rparr>]\<rparr>"
          exServiceCustom]
  by (simp add: exIngressProfiles_def exServiceCustom_def)

text \<open>
  Claim C10: in an Ingress profile list, an entry of the partition Common whose context
  is neither client nor server has no effect. The turn of the loop for it leaves the
  local slice and the Service as they are; the reader gives the same Service with the
  entry and without it; and so does the turn of the stage for the frontend, on the
  whole state of the pass, which includes the logged warnings.
\<close>

theorem ingress_other_context_no_effect:
  assumes "Partition p = ''Common''" and "Context p = CustomProfileOther c"
  shows "ingressProfileStep p (serverTLS, svc) = (serverTLS, svc)
    \<and> processIngressTLSProfilesForAS3 \<lparr>Profiles = ps @ p # qs\<rparr> svc
        = processIngressTLSProfilesForAS3 \<lparr>Profiles = ps @ qs\<rparr> svc
    \<and> profilesStep ext
          (svcName, \<lparr>MetaData = \<lparr>ResourceType = ResourceTypeIngress, RouteProfs = rp\<rparr>,
                     Virtual = \<lparr>Profiles = ps @ p # qs\<rparr>\<rparr>) st
        = profilesStep ext
          (svcName, \<lparr>MetaData = \<lparr>ResourceType = ResourceTypeIngress, RouteProfs = rp\<rparr>,
                     Virtual = \<lparr>Profiles = ps @ qs\<rparr>\<rparr>) st
    \<and> diagnostics (profilesStep ext
          (svcName, \<lparr>MetaData = \<lparr>ResourceType = ResourceTypeIngress, RouteProfs = rp\<rparr>,
                     Virtual = \<lparr>Profiles = ps @ p # qs\<rparr>\<rparr>) st) = diagnostics st"
proof -
  have step: "ingressProfileStep p acc = acc" for acc
    using assms by (cases acc) (simp add: ingressProfileStep_def)
  have reader: "processIngressTLSProfilesForAS3 \<lparr>Profiles = ps @ p # qs\<rparr> s
        = processIngressTLSProfilesForAS3 \<lparr>Profiles = ps @ qs\<rparr> s" for s
    by (simp add: processIngressTLSProfilesForAS3_def step)
  show ?thesis
    by (simp add: step reader profilesStep_def Let_def split: option.splits as3Object.splits)
qed

theorem ingress_other_context_no_effect_witness:
  "Partition \<lparr>Partition = ''Common'', Name = ''http'', Context = CustomProfileOther ''all''\<rparr> = ''Common''
   \<and> processIngressTLSProfilesForAS3
        \<lparr>Profiles = [\<lparr>Partition = ''Common'', Name = ''http'', Context = CustomProfileOther ''all''\<rparr>]\<rparr>
        exService = exService"
  using ingress_other_context_no_effect
    [of "\<lparr>Partition = ''Common'', Name = ''http'', Context = CustomProfileOther ''all''\<rparr>"
        "''all''" "[]" exService "[]" "[]"]
  by (simp add: processIngressTLSProfilesForAS3_def)

text \<open>
  Claim C8 fails on the Route path. \<^verbatim>\<open>RouteProfs\<close> is a Go map and the reader ranges
  over it; two range orders of the same map (the same key-value pairs, each key once)
  give different ServerTLS lists and different ClientTLS pointers.
\<close>

theorem route_tls_follows_range_order:
  "set exRouteProfs = set (rev exRouteProfs)
   \<and> distinct (map fst exRouteProfs)
   \<and> ServerTLS (processRouteTLSProfilesForAS3
        \<lparr>ResourceType = ResourceTypeRoute, RouteProfs = exRouteProfs\<rparr> exService)
       = [\<lparr>BigIP = ''/Common/c1''\<rparr>, \<lparr>BigIP = ''/Common/c2''\<rparr>]
   \<and> ServerTLS (processRouteTLSProfilesForAS3
        \<lparr>ResourceType = ResourceTypeRoute, RouteProfs = rev exRouteProfs\<rparr> exService)
       = [\<lparr>BigIP = ''/Common/c2''\<rparr>, \<lparr>BigIP = ''/Common/c1''\<rparr>]
   \<and> ClientTLS (processRouteTLSProfilesForAS3
        \<lparr>ResourceType = ResourceTypeRoute, RouteProfs = exRouteProfs\<rparr> exService)
       = Some \<lparr>BigIP = ''/Common/s2''\<rparr>
   \<and> ClientTLS (processRouteTLSProfilesForAS3
        \<lparr>ResourceType = ResourceTypeRoute, RouteProfs = rev exRouteProfs\<rparr> exService)
       = Some \<lparr>BigIP = ''/Common/s1''\<rparr>"
proof -
  have same_map: "set exRouteProfs = set (rev exRouteProfs)"
    by simp
  have keys: "distinct (map fst exRouteProfs)"
    by (simp add: exRouteProfs_def)
  have runs:
    "ServerTLS (processRouteTLSProfilesForAS3
        \<lparr>ResourceType = ResourceTypeRoute, RouteProfs = exRouteProfs\<rparr> exService)
       = [\<lparr>BigIP = ''/Common/c1''\<rparr>, \<lparr>BigIP = ''/Common/c2''\<rparr>]"
    "ServerTLS (processRouteTLSProfilesForAS3
        \<lparr>ResourceType = ResourceTypeRoute, RouteProfs = rev exRouteProfs\<rparr> exService)
       = [\<lparr>BigIP = ''/Common/c2''\<rparr>, \<lparr>BigIP = ''/Common/c1''\<rparr>]"
    "ClientTLS (processRouteTLSProfilesForAS3
        \<lparr>ResourceType = ResourceTypeRoute, RouteProfs = exRouteProfs\<rparr> exService)
       = Some \<lparr>BigIP = ''/Common/s2''\<rparr>"
    "ClientTLS (processRouteTLSProfilesForAS3
        \<lparr>ResourceType = ResourceTypeRoute, RouteProfs = rev exRouteProfs\<rparr> exService)
       = Some \<lparr>BigIP = ''/Common/s1''\<rparr>"
    by (simp_all add: exRouteProfs_def exService_def processRouteTLSProfilesForAS3_def
        routeProfileStep_def updateVirtualToHTTPS_def Let_def)
  from same_map keys runs show ?thesis
    by blast
qed

section \<open>Claims about the WAF injection stage\<close>

lemma exWAF_policies:
  "endpointPolicyAt (sharedApp exWAFPass) ''openshift_secure_routes'' = Some \<lparr>Rules = [0, 1]\<rparr>"
  "endpointPolicyAt (sharedApp exWAFPass) ''openshift_insecure_routes'' = Some \<lparr>Rules = [2]\<rparr>"
  by (simp_all add: exWAFPass_def endpointPolicyAt_def)

lemma exWAF_store:
  "rules exWAFPass = exRuleStore" "nextRef exWAFPass = 3" "diagnostics exWAFPass = []"
  "exRuleStore 0 = \<lparr>RuleName = ''r1'', Actions = []\<rparr>"
  "exRuleStore (Suc 0) = \<lparr>RuleName = ''r3'', Actions = []\<rparr>"
  "exRuleStore 2 = \<lparr>RuleName = ''r1'', Actions = []\<rparr>"
  by (simp_all add: exWAFPass_def exRuleStore_def)

lemma exWAFManager_loop:
  "isSecureWAF (updateRulesWithWAF exWAFManager exWAFPass)"
  "isInsecureWAF (updateRulesWithWAF exWAFManager exWAFPass)"
  "wafRules (updateRulesWithWAF exWAFManager exWAFPass) =
     exRuleStore(0 := \<lparr>RuleName = ''r1'', Actions = [wafEnableAction]\<rparr>,
                 2 := \<lparr>RuleName = ''r1'', Actions = [wafEnableAction]\<rparr>)"
  by (simp_all add: updateRulesWithWAF_def exWAF_policies exWAF_store exWAFManager_def
      f5GroupStep_def f5ResourceStep_def secureCase_def insecureCase_def
      updatePolicyWithWAF_def Let_def)

lemma exDuplicateManager_loop:
  "isSecureWAF (updateRulesWithWAF exDuplicateManager exWAFPass)"
  "\<not> isInsecureWAF (updateRulesWithWAF exDuplicateManager exWAFPass)"
  "wafRules (updateRulesWithWAF exDuplicateManager exWAFPass) =
     exRuleStore(0 := \<lparr>RuleName = ''r1'', Actions = [wafEnableAction, wafEnableAction]\<rparr>)"
  by (simp_all add: updateRulesWithWAF_def exWAF_policies exWAF_store exDuplicateManager_def
      f5GroupStep_def f5ResourceStep_def secureCase_def insecureCase_def
      updatePolicyWithWAF_def Let_def)

lemma exMissingManager_loop:
  "isSecureWAF (updateRulesWithWAF exMissingManager exWAFPass)"
  "\<not> isInsecureWAF (updateRulesWithWAF exMissingManager exWAFPass)"
  "wafRules (updateRulesWithWAF exMissingManager exWAFPass) = exRuleStore"
  by (simp_all add: updateRulesWithWAF_def exWAF_policies exWAF_store exMissingManager_def
      f5GroupStep_def f5ResourceStep_def secureCase_def insecureCase_def
      updatePolicyWithWAF_def Let_def)

text \<open>
  Claim C1, as stated: every rule of a touched policy ends with exactly one WAF action.
  It fails when two groups of \<^verbatim>\<open>IntF5Res\<close> each hold a record for the same rule: the
  rule receives a WAF-enable action from each.
\<close>

theorem waf_two_records_counterexample:
  "touched exDuplicateManager exWAFPass ''openshift_secure_routes''
   \<and> endpointPolicyAt (sharedApp (processF5ResourcesForAS3 exDuplicateManager exWAFPass))
        ''openshift_secure_routes'' = Some \<lparr>Rules = [0, 1, 3]\<rparr>
   \<and> Actions (rules (processF5ResourcesForAS3 exDuplicateManager exWAFPass) 0)
        = [wafEnableAction, wafEnableAction]
   \<and> wafActionCount (rules (processF5ResourcesForAS3 exDuplicateManager exWAFPass) 0) = 2"
proof -
  have t: "touched exDuplicateManager exWAFPass ''openshift_secure_routes''"
    by (simp add: touched_def exDuplicateManager_loop)
  have p: "endpointPolicyAt (sharedApp (processF5ResourcesForAS3 exDuplicateManager exWAFPass))
        ''openshift_secure_routes'' = Some \<lparr>Rules = [0, 1, 3]\<rparr>"
    by (simp add: processF5_secure_policy exDuplicateManager_loop exWAF_policies exWAF_store)
  have r: "rules (processF5ResourcesForAS3 exDuplicateManager exWAFPass) 0
             = \<lparr>RuleName = ''r1'', Actions = [wafEnableAction, wafEnableAction]\<rparr>"
    by (simp add: processF5_rules wafSecureDone_rules wafAllocated_rules exDuplicateManager_loop
        exWAF_policies exWAF_store addWAFDisableAction_at isWAFRule_def wafEnableAction_def)
  from t p r show ?thesis
    by (simp add: wafActionCount_def wafEnableAction_def)
qed


text \<open>
  Claim C1, amended: after the WAF injection stage every rule of a touched policy,
  the trailing rule included, holds at least one WAF action. It holds exactly one when,
  before the stage, no rule of that policy holds a WAF action, no two exposure records
  of the pass have the same identifier, and the secure and the insecure policy share no
  rule object.
\<close>

theorem waf_every_rule_has_waf_action:
  assumes "touched am st name"
    and "endpointPolicyAt (sharedApp (processF5ResourcesForAS3 am st)) name = Some ep'"
    and "a \<in> set (Rules ep')"
  shows "1 \<le> wafActionCount (rules (processF5ResourcesForAS3 am st) a)
    \<and> (set (rulesOf (endpointPolicyAt (sharedApp st) ''openshift_secure_routes''))
         \<inter> set (rulesOf (endpointPolicyAt (sharedApp st) ''openshift_insecure_routes'')) = {}
       \<and> distinct (map fst (concat (map snd (IntF5Res am))))
       \<and> (\<forall>b \<in> set (rulesOf (endpointPolicyAt (sharedApp st) name)).
             wafActionCount (rules st b) = 0)
       \<longrightarrow> wafActionCount (rules (processF5ResourcesForAS3 am st) a) = 1)"
proof -
  from touched_policy [OF assms(1)] assms(2)
  obtain ep where ep: "endpointPolicyAt (sharedApp st) name = Some ep"
    and ep': "ep' = ep\<lparr>Rules := Rules ep @ [nextRef st]\<rparr>"
    by auto
  from assms(3) ep' have mem: "a \<in> set (Rules ep @ [nextRef st])"
    by simp
  have lower: "1 \<le> wafActionCount (rules (processF5ResourcesForAS3 am st) a)"
    by (rule touched_covers [OF assms(1) ep mem])
  have upper: "wafActionCount (rules (processF5ResourcesForAS3 am st) a) \<le> 1"
    if disjoint: "set (rulesOf (endpointPolicyAt (sharedApp st) ''openshift_secure_routes''))
         \<inter> set (rulesOf (endpointPolicyAt (sharedApp st) ''openshift_insecure_routes'')) = {}"
      and ids: "distinct (map fst (concat (map snd (IntF5Res am))))"
      and clean: "\<forall>b \<in> set (rulesOf (endpointPolicyAt (sharedApp st) name)).
             wafActionCount (rules st b) = 0"
  proof -
    from mem clean ep have "a \<noteq> nextRef st \<longrightarrow> wafActionCount (rules st a) = 0"
      by (auto simp: rulesOf_def)
    from processF5_count_exact [OF disjoint ids this] show ?thesis .
  qed
  from lower upper show ?thesis
    by (meson le_antisym)
qed

theorem waf_every_rule_has_waf_action_witness:
  "touched exWAFManager exWAFPass ''openshift_secure_routes''
   \<and> endpointPolicyAt (sharedApp (processF5ResourcesForAS3 exWAFManager exWAFPass))
        ''openshift_secure_routes'' = Some \<lparr>Rules = [0, 1, 3]\<rparr>
   \<and> wafActionCount (rules (processF5ResourcesForAS3 exWAFManager exWAFPass) 0) = 1
   \<and> wafActionCount (rules (processF5ResourcesForAS3 exWAFManager exWAFPass) 1) = 1
   \<and> wafActionCount (rules (processF5ResourcesForAS3 exWAFManager exWAFPass) 3) = 1"
proof -
  have t: "touched exWAFManager exWAFPass ''openshift_secure_routes''"
    by (simp add: touched_def exWAFManager_loop)
  have p: "endpointPolicyAt (sharedApp (processF5ResourcesForAS3 exWAFManager exWAFPass))
        ''openshift_secure_routes'' = Some \<lparr>Rules = [0, 1, 3]\<rparr>"
    by (simp add: processF5_secure_policy exWAFManager_loop exWAF_policies exWAF_store)
  have disjoint:
    "set (rulesOf (endpointPolicyAt (sharedApp exWAFPass) ''openshift_secure_routes''))
       \<inter> set (rulesOf (endpointPolicyAt (sharedApp exWAFPass) ''openshift_insecure_routes'')) = {}"
    by (simp add: exWAF_policies rulesOf_def)
  have ids: "distinct (map fst (concat (map snd (IntF5Res exWAFManager))))"
    by (simp add: exWAFManager_def)
  have clean: "\<forall>b \<in> set (rulesOf (endpointPolicyAt (sharedApp exWAFPass) ''openshift_secure_routes'')).
       wafActionCount (rules exWAFPass b) = 0"
    by (simp add: exWAF_policies rulesOf_def exWAF_store wafActionCount_def)
  show ?thesis
    using waf_every_rule_has_waf_action [OF t p, of 0]
      waf_every_rule_has_waf_action [OF t p, of 1]
      waf_every_rule_has_waf_action [OF t p, of 3]
      t p disjoint ids clean
    by simp
qed

text \<open>
  Claim C4: for every touched policy the stage appends the trailing rule once, as the
  last rule, behind all rules the policy held (the rules that received WAF-enable
  actions among them); both policies receive the one rule object allocated by the
  stage, which holds exactly a drop action on the request event followed by a
  WAF-disable action. When the addresses in the policy lie below the next free address,
  the trailing rule occurs once in the policy.
\<close>

theorem waf_trailing_rule_last:
  assumes "touched am st name"
    and "endpointPolicyAt (sharedApp st) name = Some ep"
  shows "endpointPolicyAt (sharedApp (processF5ResourcesForAS3 am st)) name
           = Some (ep\<lparr>Rules := Rules ep @ [nextRef st]\<rparr>)
    \<and> rules (processF5ResourcesForAS3 am st) (nextRef st)
        = \<lparr>RuleName = ''openshift_route_waf_disable'',
           Actions = [\<lparr>Type = ''drop'', Event = ''request'', Enabled = None\<rparr>,
                      \<lparr>Type = ''waf'', Event = '''', Enabled = Some False\<rparr>]\<rparr>
    \<and> ((\<forall>b \<in> set (Rules ep). b < nextRef st)
        \<longrightarrow> count_list (Rules ep @ [nextRef st]) (nextRef st) = 1)"
proof -
  have "(\<forall>b \<in> set (Rules ep). b < nextRef st) \<longrightarrow> nextRef st \<notin> set (Rules ep)"
    by auto
  then show ?thesis
    using touched_policy(2) [OF assms(1)] assms(2) processF5_trailing_rule [of am st]
    by (auto simp: wafDisableRule_def wafDropAction_def wafDisableAction_def)
qed

theorem waf_trailing_rule_last_witness:
  "touched exWAFManager exWAFPass ''openshift_insecure_routes''
   \<and> endpointPolicyAt (sharedApp exWAFPass) ''openshift_insecure_routes'' = Some \<lparr>Rules = [2]\<rparr>
   \<and> endpointPolicyAt (sharedApp (processF5ResourcesForAS3 exWAFManager exWAFPass))
        ''openshift_insecure_routes'' = Some \<lparr>Rules = [2, 3]\<rparr>
   \<and> endpointPolicyAt (sharedApp (processF5ResourcesForAS3 exWAFManager exWAFPass))
        ''openshift_secure_routes'' = Some \<lparr>Rules = [0, 1, 3]\<rparr>
   \<and> Actions (rules (processF5ResourcesForAS3 exWAFManager exWAFPass) 3)
        = [wafDropAction, wafDisableAction]
   \<and> count_list [2, 3] (3::nat) = 1"
proof -
  have ti: "touched exWAFManager exWAFPass ''openshift_insecure_routes''"
    and ts: "touched exWAFManager exWAFPass ''openshift_secure_routes''"
    by (simp_all add: touched_def exWAFManager_loop)
  show ?thesis
    using waf_trailing_rule_last [OF ti exWAF_policies(2)]
      waf_trailing_rule_last [OF ts exWAF_policies(1)] ti exWAF_policies(2)
    by (simp add: exWAF_store wafDropAction_def wafDisableAction_def)
qed

text \<open>
  Claim C2, as stated: a record that names a rule absent from the policy contributes no
  change to the policy. It fails for the single record \<open>r7\<close> of exposure HTTPS on a secure
  policy holding the rules \<open>r1\<close> and \<open>r3\<close>: the flag of the policy is set before the
  rule is looked up, so the policy receives the trailing rule and its rules receive
  WAF-disable actions, while the same pass without the record leaves the policy alone.
\<close>

theorem waf_absent_rule_counterexample:
  "endpointPolicyAt (sharedApp exWAFPass) ''openshift_secure_routes'' = Some \<lparr>Rules = [0, 1]\<rparr>
   \<and> RuleName (rules exWAFPass 0) = ''r1'' \<and> RuleName (rules exWAFPass 1) = ''r3''
   \<and> IntF5Res exMissingManager = [(''g1'', [(''r7'', \<lparr>Virtual_res = HTTPS\<rparr>)])]
   \<and> endpointPolicyAt (sharedApp (processF5ResourcesForAS3 exMissingManager exWAFPass))
        ''openshift_secure_routes'' = Some \<lparr>Rules = [0, 1, 3]\<rparr>
   \<and> Actions (rules exWAFPass 0) = []
   \<and> Actions (rules (processF5ResourcesForAS3 exMissingManager exWAFPass) 0) = [wafDisableAction]
   \<and> endpointPolicyAt
        (sharedApp (processF5ResourcesForAS3 (exMissingManager\<lparr>IntF5Res := []\<rparr>) exWAFPass))
        ''openshift_secure_routes'' = Some \<lparr>Rules = [0, 1]\<rparr>
   \<and> Actions (rules (processF5ResourcesForAS3 (exMissingManager\<lparr>IntF5Res := []\<rparr>) exWAFPass) 0)
        = []"
proof -
  have none: "\<not> isSecureWAF (updateRulesWithWAF (exMissingManager\<lparr>IntF5Res := []\<rparr>) exWAFPass)"
    "\<not> isInsecureWAF (updateRulesWithWAF (exMissingManager\<lparr>IntF5Res := []\<rparr>) exWAFPass)"
    "wafRules (updateRulesWithWAF (exMissingManager\<lparr>IntF5Res := []\<rparr>) exWAFPass) = exRuleStore"
    by (simp_all add: updateRulesWithWAF_def exWAF_store)
  have with_record:
    "endpointPolicyAt (sharedApp (processF5ResourcesForAS3 exMissingManager exWAFPass))
        ''openshift_secure_routes'' = Some \<lparr>Rules = [0, 1, 3]\<rparr>"
    "Actions (rules (processF5ResourcesForAS3 exMissingManager exWAFPass) 0) = [wafDisableAction]"
    by (simp_all add: processF5_secure_policy processF5_rules wafSecureDone_rules
        wafAllocated_rules exMissingManager_loop exWAF_policies exWAF_store
        addWAFDisableAction_at isWAFRule_def)
  have without_record:
    "endpointPolicyAt
        (sharedApp (processF5ResourcesForAS3 (exMissingManager\<lparr>IntF5Res := []\<rparr>) exWAFPass))
        ''openshift_secure_routes'' = Some \<lparr>Rules = [0, 1]\<rparr>"
    "Actions (rules (processF5ResourcesForAS3 (exMissingManager\<lparr>IntF5Res := []\<rparr>) exWAFPass) 0)
        = []"
    by (simp_all add: processF5_secure_policy processF5_rules wafSecureDone_rules
        wafAllocated_rules none exWAF_policies exWAF_store)
  from with_record without_record show ?thesis
    by (simp add: exWAF_policies exWAF_store exMissingManager_def)
qed

text \<open>
  Claim C2, amended: take a pass whose exposure records hold a record that names a rule
  absent from each policy it targets (the secure policy for HTTPS, the insecure policy
  for HTTP, both for HTTP-and-HTTPS). The update for the record is a no-op: the loop of
  the stage leaves every rule object as the same pass without the record leaves it, so
  no rule is created and no rule receives an action from the record. The record still
  marks each targeted policy that exists as touched; the stage therefore appends the
  trailing rule to that policy and every rule of it ends with a WAF action. When the
  targeted policies are touched by other records anyway, the stage gives the same
  result with the record and without it.
\<close>

theorem waf_record_for_absent_rule:
  assumes "IntF5Res am = gs @ (g, rs @ (rec, res) # rs') # gs'"
    and "Virtual_res res = HTTPS \<or> Virtual_res res = HTTPANDS \<longrightarrow>
       (\<forall>r \<in> set (rulesOf (endpointPolicyAt (sharedApp st) ''openshift_secure_routes'')).
          RuleName (rules st r) \<noteq> rec)"
    and "Virtual_res res = HTTP \<or> Virtual_res res = HTTPANDS \<longrightarrow>
       (\<forall>r \<in> set (rulesOf (endpointPolicyAt (sharedApp st) ''openshift_insecure_routes'')).
          RuleName (rules st r) \<noteq> rec)"
  shows "wafRules (updateRulesWithWAF am st)
           = wafRules (updateRulesWithWAF (am\<lparr>IntF5Res := gs @ (g, rs @ rs') # gs'\<rparr>) st)
    \<and> isSecureWAF (updateRulesWithWAF am st)
        = (isSecureWAF (updateRulesWithWAF (am\<lparr>IntF5Res := gs @ (g, rs @ rs') # gs'\<rparr>) st)
           \<or> (Virtual_res res = HTTPS \<or> Virtual_res res = HTTPANDS)
             \<and> endpointPolicyAt (sharedApp st) ''openshift_secure_routes'' \<noteq> None)
    \<and> isInsecureWAF (updateRulesWithWAF am st)
        = (isInsecureWAF (updateRulesWithWAF (am\<lparr>IntF5Res := gs @ (g, rs @ rs') # gs'\<rparr>) st)
           \<or> (Virtual_res res = HTTP \<or> Virtual_res res = HTTPANDS)
             \<and> endpointPolicyAt (sharedApp st) ''openshift_insecure_routes'' \<noteq> None)
    \<and> ((Virtual_res res = HTTPS \<or> Virtual_res res = HTTPANDS)
         \<and> endpointPolicyAt (sharedApp st) ''openshift_secure_routes'' = Some epS
        \<longrightarrow> endpointPolicyAt (sharedApp (processF5ResourcesForAS3 am st)) ''openshift_secure_routes''
              = Some (epS\<lparr>Rules := Rules epS @ [nextRef st]\<rparr>)
          \<and> (\<forall>a \<in> set (Rules epS @ [nextRef st]).
                1 \<le> wafActionCount (rules (processF5ResourcesForAS3 am st) a)))
    \<and> ((Virtual_res res = HTTP \<or> Virtual_res res = HTTPANDS)
         \<and> endpointPolicyAt (sharedApp st) ''openshift_insecure_routes'' = Some epI
        \<longrightarrow> endpointPolicyAt (sharedApp (processF5ResourcesForAS3 am st)) ''openshift_insecure_routes''
              = Some (epI\<lparr>Rules := Rules epI @ [nextRef st]\<rparr>)
          \<and> (\<forall>a \<in> set (Rules epI @ [nextRef st]).
                1 \<le> wafActionCount (rules (processF5ResourcesForAS3 am st) a)))
    \<and> (((Virtual_res res = HTTPS \<or> Virtual_res res = HTTPANDS)
           \<and> endpointPolicyAt (sharedApp st) ''openshift_secure_routes'' \<noteq> None
          \<longrightarrow> isSecureWAF (updateRulesWithWAF (am\<lparr>IntF5Res := gs @ (g, rs @ rs') # gs'\<rparr>) st))
         \<and> ((Virtual_res res = HTTP \<or> Virtual_res res = HTTPANDS)
           \<and> endpointPolicyAt (sharedApp st) ''openshift_insecure_routes'' \<noteq> None
          \<longrightarrow> isInsecureWAF (updateRulesWithWAF (am\<lparr>IntF5Res := gs @ (g, rs @ rs') # gs'\<rparr>) st))
        \<longrightarrow> processF5ResourcesForAS3 am st
              = processF5ResourcesForAS3 (am\<lparr>IntF5Res := gs @ (g, rs @ rs') # gs'\<rparr>) st)"
proof -
  let ?am0 = "am\<lparr>IntF5Res := gs @ (g, rs @ rs') # gs'\<rparr>"
  let ?s = "(Virtual_res res = HTTPS \<or> Virtual_res res = HTTPANDS)
              \<and> endpointPolicyAt (sharedApp st) ''openshift_secure_routes'' \<noteq> None"
  let ?i = "(Virtual_res res = HTTP \<or> Virtual_res res = HTTPANDS)
              \<and> endpointPolicyAt (sharedApp st) ''openshift_insecure_routes'' \<noteq> None"
  have loop: "updateRulesWithWAF am st = orFlags ?s ?i (updateRulesWithWAF ?am0 st)"
    by (rule updateRulesWithWAF_absent_record [OF assms])
  have store: "wafRules (updateRulesWithWAF am st) = wafRules (updateRulesWithWAF ?am0 st)"
    and sflag: "isSecureWAF (updateRulesWithWAF am st)
                  = (isSecureWAF (updateRulesWithWAF ?am0 st) \<or> ?s)"
    and iflag: "isInsecureWAF (updateRulesWithWAF am st)
                  = (isInsecureWAF (updateRulesWithWAF ?am0 st) \<or> ?i)"
    by (simp_all add: loop orFlags_def)
  have secure: "endpointPolicyAt (sharedApp (processF5ResourcesForAS3 am st)) ''openshift_secure_routes''
              = Some (epS\<lparr>Rules := Rules epS @ [nextRef st]\<rparr>)
          \<and> (\<forall>a \<in> set (Rules epS @ [nextRef st]).
                1 \<le> wafActionCount (rules (processF5ResourcesForAS3 am st) a))"
    if "Virtual_res res = HTTPS \<or> Virtual_res res = HTTPANDS"
      and ep: "endpointPolicyAt (sharedApp st) ''openshift_secure_routes'' = Some epS"
  proof -
    from that have t: "touched am st ''openshift_secure_routes''"
      by (simp add: touched_def sflag)
    from touched_policy(2) [OF t] ep touched_covers [OF t ep] show ?thesis
      by simp
  qed
  have insecure: "endpointPolicyAt (sharedApp (processF5ResourcesForAS3 am st)) ''openshift_insecure_routes''
              = Some (epI\<lparr>Rules := Rules epI @ [nextRef st]\<rparr>)
          \<and> (\<forall>a \<in> set (Rules epI @ [nextRef st]).
                1 \<le> wafActionCount (rules (processF5ResourcesForAS3 am st) a))"
    if "Virtual_res res = HTTP \<or> Virtual_res res = HTTPANDS"
      and ep: "endpointPolicyAt (sharedApp st) ''openshift_insecure_routes'' = Some epI"
  proof -
    from that have t: "touched am st ''openshift_insecure_routes''"
      by (simp add: touched_def iflag)
    from touched_policy(2) [OF t] ep touched_covers [OF t ep] show ?thesis
      by simp
  qed
  have same: "processF5ResourcesForAS3 am st = processF5ResourcesForAS3 ?am0 st"
    if "?s \<longrightarrow> isSecureWAF (updateRulesWithWAF ?am0 st)"
      and "?i \<longrightarrow> isInsecureWAF (updateRulesWithWAF ?am0 st)"
  proof -
    from that have "orFlags ?s ?i (updateRulesWithWAF ?am0 st) = updateRulesWithWAF ?am0 st"
      by (rule orFlags_id)
    with loop have "updateRulesWithWAF am st = updateRulesWithWAF ?am0 st"
      by simp
    then show ?thesis
      by (simp add: processF5ResourcesForAS3_def)
  qed
  from store sflag iflag secure insecure same show ?thesis
    by blast
qed

theorem waf_record_for_absent_rule_witness:
  "IntF5Res exMissingManager = [] @ (''g1'', [] @ (''r7'', \<lparr>Virtual_res = HTTPS\<rparr>) # []) # []
   \<and> map (\<lambda>r. RuleName (rules exWAFPass r)) [0, 1] = [''r1'', ''r3'']
   \<and> wafRules (updateRulesWithWAF exMissingManager exWAFPass)
       = wafRules (updateRulesWithWAF (exMissingManager\<lparr>IntF5Res := [(''g1'', [])]\<rparr>) exWAFPass)
   \<and> isSecureWAF (updateRulesWithWAF exMissingManager exWAFPass)
   \<and> endpointPolicyAt (sharedApp (processF5ResourcesForAS3 exMissingManager exWAFPass))
        ''openshift_secure_routes'' = Some \<lparr>Rules = [0, 1, 3]\<rparr>
   \<and> 1 \<le> wafActionCount (rules (processF5ResourcesForAS3 exMissingManager exWAFPass) 0)
   \<and> 1 \<le> wafActionCount (rules (processF5ResourcesForAS3 exMissingManager exWAFPass) 3)"
proof -
  have feed: "IntF5Res exMissingManager
      = [] @ (''g1'', [] @ (''r7'', \<lparr>Virtual_res = HTTPS\<rparr>) # []) # []"
    by (simp add: exMissingManager_def)
  have absentS: "Virtual_res \<lparr>Virtual_res = HTTPS\<rparr> = HTTPS
        \<or> Virtual_res \<lparr>Virtual_res = HTTPS\<rparr> = HTTPANDS \<longrightarrow>
       (\<forall>r \<in> set (rulesOf (endpointPolicyAt (sharedApp exWAFPass) ''openshift_secure_routes'')).
          RuleName (rules exWAFPass r) \<noteq> ''r7'')"
    by (simp add: exWAF_policies rulesOf_def exWAF_store)
  have absentI: "Virtual_res \<lparr>Virtual_res = HTTPS\<rparr> = HTTP
        \<or> Virtual_res \<lparr>Virtual_res = HTTPS\<rparr> = HTTPANDS \<longrightarrow>
       (\<forall>r \<in> set (rulesOf (endpointPolicyAt (sharedApp exWAFPass) ''openshift_insecure_routes'')).
          RuleName (rules exWAFPass r) \<noteq> ''r7'')"
    by simp
  from waf_record_for_absent_rule [OF feed absentS absentI, of "\<lparr>Rules = [0, 1]\<rparr>"]
    feed exWAF_policies
  show ?thesis
    by (simp add: exWAF_store)
qed

text \<open>
  Claim C5: when the exposure records of a pass hold a record whose exposure is
  HTTP-and-HTTPS, the stage performs both handlings for that one record. If the secure
  policy exists, it is marked touched, so it receives the trailing rule, and the rule
  of the secure policy that the record names holds a WAF-enable action after the loop
  and after the stage. If the insecure policy exists, the same holds for it and for the
  rule of the insecure policy that the record names. In the loop the turn for the
  record is the body of the case HTTPS followed by the body of the case HTTP. (The
  address of the named rule is taken to differ from the address that the stage
  allocates for the trailing rule.)
\<close>

theorem waf_http_and_https_does_both:
  assumes "(g, rs) \<in> set (IntF5Res am)" and "(rec, res) \<in> set rs"
    and "Virtual_res res = HTTPANDS"
  shows "(endpointPolicyAt (sharedApp st) ''openshift_secure_routes'' = Some epS \<longrightarrow>
            touched am st ''openshift_secure_routes''
            \<and> endpointPolicyAt (sharedApp (processF5ResourcesForAS3 am st)) ''openshift_secure_routes''
                = Some (epS\<lparr>Rules := Rules epS @ [nextRef st]\<rparr>)
            \<and> (find (\<lambda>a. RuleName (rules st a) = rec) (Rules epS) = Some r \<and> r \<noteq> nextRef st \<longrightarrow>
                  wafEnableAction \<in> set (Actions (wafRules (updateRulesWithWAF am st) r))
                  \<and> wafEnableAction \<in> set (Actions (rules (processF5ResourcesForAS3 am st) r))))
    \<and> (endpointPolicyAt (sharedApp st) ''openshift_insecure_routes'' = Some epI \<longrightarrow>
            touched am st ''openshift_insecure_routes''
            \<and> endpointPolicyAt (sharedApp (processF5ResourcesForAS3 am st)) ''openshift_insecure_routes''
                = Some (epI\<lparr>Rules := Rules epI @ [nextRef st]\<rparr>)
            \<and> (find (\<lambda>a. RuleName (rules st a) = rec) (Rules epI) = Some r' \<and> r' \<noteq> nextRef st \<longrightarrow>
                  wafEnableAction \<in> set (Actions (wafRules (updateRulesWithWAF am st) r'))
                  \<and> wafEnableAction \<in> set (Actions (rules (processF5ResourcesForAS3 am st) r'))))
    \<and> f5ResourceStep secureEP insecureEP (rec, res) l
        = insecureCase insecureEP rec res (secureCase secureEP rec res l)"
proof -
  let ?l0 = "\<lparr>isSecureWAF = False, isInsecureWAF = False, wafRules = rules st\<rparr>"
  have both: "Virtual_res res = HTTPS \<or> Virtual_res res = HTTPANDS"
      "Virtual_res res = HTTP \<or> Virtual_res res = HTTPANDS"
    using assms(3) by simp_all
  have secure: "touched am st ''openshift_secure_routes''
            \<and> endpointPolicyAt (sharedApp (processF5ResourcesForAS3 am st)) ''openshift_secure_routes''
                = Some (epS\<lparr>Rules := Rules epS @ [nextRef st]\<rparr>)
            \<and> (find (\<lambda>a. RuleName (rules st a) = rec) (Rules epS) = Some r \<and> r \<noteq> nextRef st \<longrightarrow>
                  wafEnableAction \<in> set (Actions (wafRules (updateRulesWithWAF am st) r))
                  \<and> wafEnableAction \<in> set (Actions (rules (processF5ResourcesForAS3 am st) r)))"
    if ep: "endpointPolicyAt (sharedApp st) ''openshift_secure_routes'' = Some epS"
  proof -
    obtain gs1 gs2 where gsplit: "IntF5Res am = gs1 @ (g, rs) # gs2"
      using assms(1) by (meson split_list)
    obtain rs1 rs2 where rsplit: "rs = rs1 @ (rec, res) # rs2"
      using assms(2) by (meson split_list)
    have step: "isSecureWAF (f5ResourceStep (Some epS) iEP (rec, res) k)" for iEP k
      using assms(3)
      by (simp add: f5ResourceStep_def secureCase_def insecureCase_def split: option.splits)
    have flag: "isSecureWAF (updateRulesWithWAF am st)"
      using step f5Resource_fold_flags_keep f5Group_fold_flags_keep
      by (simp add: updateRulesWithWAF_def Let_def ep gsplit rsplit f5GroupStep_pair)
    then have t: "touched am st ''openshift_secure_routes''"
      by (simp add: touched_def)
    have hit: "wafEnableAction \<in> set (Actions (wafRules (updateRulesWithWAF am st) r))
                  \<and> wafEnableAction \<in> set (Actions (rules (processF5ResourcesForAS3 am st) r))"
      if f: "find (\<lambda>a. RuleName (rules st a) = rec) (Rules epS) = Some r" and fresh: "r \<noteq> nextRef st"
    proof -
      from f have "find (\<lambda>a. RuleName (wafRules ?l0 a) = rec) (Rules epS) = Some r"
        by simp
      from f5Group_fold_hit_secure [OF assms(1,2) both(1) this]
      have "wafEnableAction \<in> set (Actions (wafRules (updateRulesWithWAF am st) r))"
        by (simp add: updateRulesWithWAF_def Let_def ep)
      with processF5_actions_grow [OF fresh, of am] show ?thesis
        by auto
    qed
    from t touched_policy(2) [OF t] ep hit show ?thesis
      by simp
  qed
  have insecure: "touched am st ''openshift_insecure_routes''
            \<and> endpointPolicyAt (sharedApp (processF5ResourcesForAS3 am st)) ''openshift_insecure_routes''
                = Some (epI\<lparr>Rules := Rules epI @ [nextRef st]\<rparr>)
            \<and> (find (\<lambda>a. RuleName (rules st a) = rec) (Rules epI) = Some r' \<and> r' \<noteq> nextRef st \<longrightarrow>
                  wafEnableAction \<in> set (Actions (wafRules (updateRulesWithWAF am st) r'))
                  \<and> wafEnableAction \<in> set (Actions (rules (processF5ResourcesForAS3 am st) r')))"
    if ep: "endpointPolicyAt (sharedApp st) ''openshift_insecure_routes'' = Some epI"
  proof -
    obtain gs1 gs2 where gsplit: "IntF5Res am = gs1 @ (g, rs) # gs2"
      using assms(1) by (meson split_list)
    obtain rs1 rs2 where rsplit: "rs = rs1 @ (rec, res) # rs2"
      using assms(2) by (meson split_list)
    have step: "isInsecureWAF (f5ResourceStep sEP (Some epI) (rec, res) k)" for sEP k
      using assms(3)
      by (simp add: f5ResourceStep_def secureCase_def insecureCase_def split: option.splits)
    have flag: "isInsecureWAF (updateRulesWithWAF am st)"
      using step f5Resource_fold_flags_keep f5Group_fold_flags_keep
      by (simp add: updateRulesWithWAF_def Let_def ep gsplit rsplit f5GroupStep_pair)
    then have t: "touched am st ''openshift_insecure_routes''"
      by (simp add: touched_def)
    have hit: "wafEnableAction \<in> set (Actions (wafRules (updateRulesWithWAF am st) r'))
                  \<and> wafEnableAction \<in> set (Actions (rules (processF5ResourcesForAS3 am st) r'))"
      if f: "find (\<lambda>a. RuleName (rules st a) = rec) (Rules epI) = Some r'" and fresh: "r' \<noteq> nextRef st"
    proof -
      from f have "find (\<lambda>a. RuleName (wafRules ?l0 a) = rec) (Rules epI) = Some r'"
        by simp
      from f5Group_fold_hit_insecure [OF assms(1,2) both(2) this]
      have "wafEnableAction \<in> set (Actions (wafRules (updateRulesWithWAF am st) r'))"
        by (simp add: updateRulesWithWAF_def Let_def ep)
      with processF5_actions_grow [OF fresh, of am] show ?thesis
        by auto
    qed
    from t touched_policy(2) [OF t] ep hit show ?thesis
      by simp
  qed
  have turn: "f5ResourceStep secureEP insecureEP (rec, res) l
        = insecureCase insecureEP rec res (secureCase secureEP rec res l)"
    using assms(3) by (simp add: f5ResourceStep_def)
  from secure insecure turn show ?thesis
    by blast
qed

theorem waf_http_and_https_does_both_witness:
  "(''g1'', [(''r1'', \<lparr>Virtual_res = HTTPANDS\<rparr>), (''r9'', \<lparr>Virtual_res = VirtualOther ''tcp''\<rparr>)])
       \<in> set (IntF5Res exWAFManager)
   \<and> touched exWAFManager exWAFPass ''openshift_secure_routes''
   \<and> touched exWAFManager exWAFPass ''openshift_insecure_routes''
   \<and> endpointPolicyAt (sharedApp (processF5ResourcesForAS3 exWAFManager exWAFPass))
        ''openshift_secure_routes'' = Some \<lparr>Rules = [0, 1, 3]\<rparr>
   \<and> endpointPolicyAt (sharedApp (processF5ResourcesForAS3 exWAFManager exWAFPass))
        ''openshift_insecure_routes'' = Some \<lparr>Rules = [2, 3]\<rparr>
   \<and> wafEnableAction \<in> set (Actions (rules (processF5ResourcesForAS3 exWAFManager exWAFPass) 0))
   \<and> wafEnableAction \<in> set (Actions (rules (processF5ResourcesForAS3 exWAFManager exWAFPass) 2))"
proof -
  have g: "(''g1'', [(''r1'', \<lparr>Virtual_res = HTTPANDS\<rparr>), (''r9'', \<lparr>Virtual_res = VirtualOther ''tcp''\<rparr>)])
       \<in> set (IntF5Res exWAFManager)"
    by (simp add: exWAFManager_def)
  have r: "(''r1'', \<lparr>Virtual_res = HTTPANDS\<rparr>)
       \<in> set [(''r1'', \<lparr>Virtual_res = HTTPANDS\<rparr>), (''r9'', \<lparr>Virtual_res = VirtualOther ''tcp''\<rparr>)]"
    by simp
  have v: "Virtual_res \<lparr>Virtual_res = HTTPANDS\<rparr> = HTTPANDS"
    by simp
  have fs: "find (\<lambda>a. RuleName (rules exWAFPass a) = ''r1'') (Rules \<lparr>Rules = [0, 1]\<rparr>) = Some 0"
    and fi: "find (\<lambda>a. RuleName (rules exWAFPass a) = ''r1'') (Rules \<lparr>Rules = [2]\<rparr>) = Some 2"
    by (simp_all add: exWAF_store)
  from waf_http_and_https_does_both [OF g r v, of exWAFPass "\<lparr>Rules = [0, 1]\<rparr>" 0 "\<lparr>Rules = [2]\<rparr>" 2]
    g fs fi exWAF_policies
  show ?thesis
    by (simp add: exWAF_store)
qed

section \<open>Claims about unsupported input and about the assembly\<close>

text \<open>
  Claim C6, as stated: an item of unsupported shape is skipped with a diagnostic, in the
  TLS stage and in the WAF stage. It fails in the WAF stage: the switch on the exposure
  has no default branch, and a pass whose only record has an unsupported exposure logs
  nothing.
\<close>

theorem waf_unknown_exposure_counterexample:
  "IntF5Res exUnknownManager = [(''g1'', [(''r1'', \<lparr>Virtual_res = VirtualOther ''tcp''\<rparr>)])]
   \<and> diagnostics exWAFPass = []
   \<and> diagnostics (processF5ResourcesForAS3 exUnknownManager exWAFPass) = []"
  by (simp add: processF5_diagnostics exWAF_store exUnknownManager_def)

text \<open>
  Claim C6, amended. TLS stage: a frontend whose resource type is neither Route nor
  Ingress leaves the tree as it is; a warning naming the resource type is logged when
  the Service object of the frontend exists, and nothing is logged when it does not;
  the other frontends of the pass are handled as if the frontend were not there. WAF
  stage: a record whose exposure is none of HTTP, HTTPS, HTTP-and-HTTPS changes nothing;
  the pass gives the same result as without the record; the WAF stage logs no
  diagnostic at all.
\<close>

theorem unsupported_items_are_skipped:
  "(ResourceType (MetaData cfg) = ResourceTypeOther t \<longrightarrow>
      profilesStep ext (svcName, cfg) st =
        (if serviceAt (sharedApp st) (as3FormatedString ext svcName (ResourceTypeOther t))
         then st\<lparr>diagnostics := diagnostics st @ [UnsupportedResourceType (ResourceTypeOther t)]\<rparr>
         else st)
      \<and> sharedApp (processProfilesForAS3 ext (am\<lparr>RsMap := xs @ (svcName, cfg) # ys\<rparr>) st)
          = sharedApp (processProfilesForAS3 ext (am\<lparr>RsMap := xs @ ys\<rparr>) st))
   \<and> (Virtual_res res = VirtualOther v \<longrightarrow>
      f5ResourceStep secureEP insecureEP (rec, res) l = l
      \<and> processF5ResourcesForAS3 (am\<lparr>IntF5Res := gs @ (g, rs @ (rec, res) # rs') # gs'\<rparr>) st
          = processF5ResourcesForAS3 (am\<lparr>IntF5Res := gs @ (g, rs @ rs') # gs'\<rparr>) st)
   \<and> diagnostics (processF5ResourcesForAS3 am st) = diagnostics st"
proof (intro conjI impI)
  assume other: "ResourceType (MetaData cfg) = ResourceTypeOther t"
  show step: "profilesStep ext (svcName, cfg) st =
        (if serviceAt (sharedApp st) (as3FormatedString ext svcName (ResourceTypeOther t))
         then st\<lparr>diagnostics := diagnostics st @ [UnsupportedResourceType (ResourceTypeOther t)]\<rparr>
         else st)"
    by (rule profilesStep_unsupported [OF other])
  have "sharedApp (profilesStep ext (svcName, cfg) s) = sharedApp s" for s
    by (simp add: profilesStep_unsupported [OF other])
  from profiles_fold_sharedApp_cong [OF this]
  show "sharedApp (processProfilesForAS3 ext (am\<lparr>RsMap := xs @ (svcName, cfg) # ys\<rparr>) st)
          = sharedApp (processProfilesForAS3 ext (am\<lparr>RsMap := xs @ ys\<rparr>) st)"
    by (simp add: processProfilesForAS3_def)
next
  assume other: "Virtual_res res = VirtualOther v"
  show skip: "f5ResourceStep secureEP insecureEP (rec, res) l = l"
    by (simp add: f5ResourceStep_def other)
  have "f5ResourceStep sEP iEP (rec, res) k = k" for sEP iEP k
    by (simp add: f5ResourceStep_def other)
  then have "updateRulesWithWAF (am\<lparr>IntF5Res := gs @ (g, rs @ (rec, res) # rs') # gs'\<rparr>) st
      = updateRulesWithWAF (am\<lparr>IntF5Res := gs @ (g, rs @ rs') # gs'\<rparr>) st"
    by (simp add: updateRulesWithWAF_def f5GroupStep_def Let_def)
  then show "processF5ResourcesForAS3 (am\<lparr>IntF5Res := gs @ (g, rs @ (rec, res) # rs') # gs'\<rparr>) st
          = processF5ResourcesForAS3 (am\<lparr>IntF5Res := gs @ (g, rs @ rs') # gs'\<rparr>) st"
    by (simp add: processF5ResourcesForAS3_def)
next
  show "diagnostics (processF5ResourcesForAS3 am st) = diagnostics st"
    by (rule processF5_diagnostics)
qed

theorem unsupported_items_are_skipped_witness:
  "diagnostics (profilesStep exExt (''cm'', exOther) exTLSPass)
     = [UnsupportedResourceType (ResourceTypeOther ''configmap'')]
   \<and> sharedApp (profilesStep exExt (''cm'', exOther) exTLSPass) = sharedApp exTLSPass
   \<and> profilesStep exExt (''absent'', exOther) exTLSPass = exTLSPass
   \<and> f5ResourceStep (Some \<lparr>Rules = [0, 1]\<rparr>) (Some \<lparr>Rules = [2]\<rparr>)
        (''r1'', \<lparr>Virtual_res = VirtualOther ''tcp''\<rparr>)
        \<lparr>isSecureWAF = False, isInsecureWAF = False, wafRules = exRuleStore\<rparr>
       = \<lparr>isSecureWAF = False, isInsecureWAF = False, wafRules = exRuleStore\<rparr>"
proof -
  have other: "ResourceType (MetaData exOther) = ResourceTypeOther ''configmap''"
    by (simp add: exOther_def)
  have unknown: "Virtual_res \<lparr>Virtual_res = VirtualOther ''tcp''\<rparr> = VirtualOther ''tcp''"
    by simp
  have present: "serviceAt (sharedApp exTLSPass) (as3FormatedString exExt ''cm'' (ResourceTypeOther ''configmap''))"
    by (simp add: serviceAt_def exTLSPass_def exExt_def)
  have absent: "\<not> serviceAt (sharedApp exTLSPass) (as3FormatedString exExt ''absent'' (ResourceTypeOther ''configmap''))"
    by (simp add: serviceAt_def exTLSPass_def exExt_def)
  have d: "diagnostics exTLSPass = []"
    by (simp add: exTLSPass_def initDefault_def)
  from unsupported_items_are_skipped
      [where cfg = exOther and t = "''configmap''" and ext = exExt and svcName = "''cm''"
         and st = exTLSPass and am = exTLSManager and xs = "[]" and ys = "[]"
         and res = "\<lparr>Virtual_res = VirtualOther ''tcp''\<rparr>" and v = "''tcp''"
         and secureEP = "Some \<lparr>Rules = [0, 1]\<rparr>" and insecureEP = "Some \<lparr>Rules = [2]\<rparr>"
         and rec = "''r1''"
         and l = "\<lparr>isSecureWAF = False, isInsecureWAF = False, wafRules = exRuleStore\<rparr>"]
    unsupported_items_are_skipped
      [where cfg = exOther and t = "''configmap''" and ext = exExt and svcName = "''absent''"
         and st = exTLSPass and am = exTLSManager and xs = "[]" and ys = "[]"
         and res = "\<lparr>Virtual_res = VirtualOther ''tcp''\<rparr>" and v = "''tcp''"]
    other unknown present absent d
  show ?thesis by simp
qed

text \<open>
  Claim C7: when the default partition is empty, the assembled configuration targets
  the empty partition and its override payload is empty, whatever payload the pass
  carried.
\<close>

theorem override_dropped_for_empty_partition:
  assumes "DEFAULT_PARTITION am = ''''"
  shows "partition (adc (fst (prepareAS3ResourceConfig ext am routeCfg))) = ''''
    \<and> Data (overrideConfigmap (fst (prepareAS3ResourceConfig ext am routeCfg))) = ''''"
  using assms
  by (simp add: prepareAS3ResourceConfig_def isDefaultAS3PartitionEmpty_def Let_def)

theorem override_dropped_for_empty_partition_witness:
  "DEFAULT_PARTITION exTLSManager = ''''
   \<and> Data (overrideConfigmap exRouteCfg) = ''{ override }''
   \<and> Data (overrideConfigmap (fst (prepareAS3ResourceConfig exExt exTLSManager exRouteCfg))) = ''''"
proof -
  have h: "DEFAULT_PARTITION exTLSManager = ''''"
    by (simp add: exTLSManager_def)
  from override_dropped_for_empty_partition [OF h, of exExt exRouteCfg] h
  show ?thesis by (simp add: exRouteCfg_def)
qed

end
